theory Spec2Isabelle
  imports Complex_Main "HOL-Library.Word" "HOL-Library.Log_Nat"
begin

unbundle bit_operations_syntax

chapter \<open>The model: data and operations of PerplBot\<close>

section \<open>JavaScript numbers\<close>

text \<open>
  A JavaScript \<^verbatim>\<open>number\<close> is an IEEE 754 binary64 value. A finite one is modelled
  by the rational it denotes, so \<open>Fin q\<close> stands for the double whose value is \<open>q\<close>;
  the two infinities and NaN are constructors of their own. The sign of zero is not
  kept: \<open>-0\<close> and \<open>+0\<close> are both \<open>Fin 0\<close>, and a division by zero takes the sign of
  its numerator. Every arithmetic operation computes the exact rational result and
  rounds it to the nearest double, ties to even (\<open>round64\<close>), with gradual underflow
  below \<open>2 powi (- 1022)\<close> and overflow to an infinity from \<open>2 powi 1024\<close> on.
\<close>

datatype js_number = Fin rat | PosInf | NegInf | NaN

definition floor_log2 :: "rat \<Rightarrow> int" where
  "floor_log2 a =
     (let (p, q) = quotient_of a; e0 = bitlen p - bitlen q
      in if 2 powi e0 \<le> a then e0 else e0 - 1)"

definition round_pos :: "rat \<Rightarrow> rat" where
  "round_pos a =
     (let k = max (floor_log2 a - 52) (- 1074);
          y = a / 2 powi k;
          n = \<lfloor>y\<rfloor>;
          f = y - of_int n;
          n' = (if 1 / 2 < f \<or> (f = 1 / 2 \<and> odd n) then n + 1 else n)
      in of_int n' * 2 powi k)"

definition round64 :: "rat \<Rightarrow> js_number" where
  "round64 x =
     (if x = 0 then Fin 0
      else let r = round_pos \<bar>x\<bar>
           in if 2 powi 1024 \<le> r then (if 0 < x then PosInf else NegInf)
              else Fin (if 0 < x then r else - r))"

text \<open>\<^verbatim>\<open>Number(b)\<close> for a bigint \<open>b\<close>: the nearest double.\<close>

definition Number_of_bigint :: "int \<Rightarrow> js_number" where
  "Number_of_bigint b = round64 (of_int b)"

definition is_neg :: "js_number \<Rightarrow> bool" where
  "is_neg x = (case x of Fin a \<Rightarrow> a < 0 | NegInf \<Rightarrow> True | _ \<Rightarrow> False)"

definition inf_of_sign :: "bool \<Rightarrow> js_number" where
  "inf_of_sign neg = (if neg then NegInf else PosInf)"

fun js_mul :: "js_number \<Rightarrow> js_number \<Rightarrow> js_number" where
  "js_mul NaN y = NaN"
| "js_mul x NaN = NaN"
| "js_mul (Fin a) (Fin b) = round64 (a * b)"
| "js_mul (Fin a) y = (if a = 0 then NaN else inf_of_sign ((a < 0) \<noteq> is_neg y))"
| "js_mul x (Fin b) = (if b = 0 then NaN else inf_of_sign (is_neg x \<noteq> (b < 0)))"
| "js_mul x y = inf_of_sign (is_neg x \<noteq> is_neg y)"

fun js_add :: "js_number \<Rightarrow> js_number \<Rightarrow> js_number" where
  "js_add NaN y = NaN"
| "js_add x NaN = NaN"
| "js_add (Fin a) (Fin b) = round64 (a + b)"
| "js_add (Fin a) y = y"
| "js_add x (Fin b) = x"
| "js_add x y = (if x = y then x else NaN)"

fun js_neg :: "js_number \<Rightarrow> js_number" where
  "js_neg (Fin a) = Fin (- a)"
| "js_neg PosInf = NegInf"
| "js_neg NegInf = PosInf"
| "js_neg NaN = NaN"

definition js_sub :: "js_number \<Rightarrow> js_number \<Rightarrow> js_number" where
  "js_sub x y = js_add x (js_neg y)"

fun js_div :: "js_number \<Rightarrow> js_number \<Rightarrow> js_number" where
  "js_div NaN y = NaN"
| "js_div x NaN = NaN"
| "js_div (Fin a) (Fin b) =
     (if b = 0 then (if a = 0 then NaN else inf_of_sign (a < 0)) else round64 (a / b))"
| "js_div (Fin a) y = Fin 0"
| "js_div x (Fin b) = inf_of_sign (is_neg x \<noteq> (b < 0))"
| "js_div x y = NaN"

text \<open>\<^verbatim>\<open>Math.floor\<close>: the floor of a double is a double.\<close>

fun Math_floor :: "js_number \<Rightarrow> js_number" where
  "Math_floor (Fin a) = Fin (of_int \<lfloor>a\<rfloor>)"
| "Math_floor x = x"

datatype js_error = RangeError | Error string

text \<open>\<^verbatim>\<open>BigInt(x)\<close> for a number: a RangeError unless \<open>x\<close> is an integer.\<close>

fun BigInt_of_number :: "js_number \<Rightarrow> js_error + int" where
  "BigInt_of_number (Fin a) = (if of_int \<lfloor>a\<rfloor> = a then Inr \<lfloor>a\<rfloor> else Inl RangeError)"
| "BigInt_of_number x = Inl RangeError"

section \<open>Packed storage words of the fork liquidation simulator\<close>

text \<open>
  The simulator keeps a storage word as a JavaScript \<^verbatim>\<open>bigint\<close>, an unbounded
  two's-complement integer, so the word is an \<^typ>\<open>int\<close> here and a 256-bit word is an
  \<^typ>\<open>int\<close> in the range \<open>0 \<le> w < 2 ^ 256\<close>. Bit offsets and widths are JavaScript
  numbers holding integers and are passed through \<^verbatim>\<open>BigInt(...)\<close>; they are
  \<^typ>\<open>int\<close> as well. A bigint shift by a negative count shifts the other way.
\<close>

definition bigint_shl :: "int \<Rightarrow> int \<Rightarrow> int" where
  "bigint_shl x n = (if 0 \<le> n then push_bit (nat n) x else drop_bit (nat (- n)) x)"

definition bigint_shr :: "int \<Rightarrow> int \<Rightarrow> int" where
  "bigint_shr x n = (if 0 \<le> n then drop_bit (nat n) x else push_bit (nat (- n)) x)"

definition extractField :: "int \<Rightarrow> int \<Rightarrow> int \<Rightarrow> int" where
  "extractField word bitOffset bitWidth =
     (let msk = bigint_shl 1 bitWidth - 1
      in (bigint_shr word bitOffset) AND msk)"

definition writeField :: "int \<Rightarrow> int \<Rightarrow> int \<Rightarrow> int \<Rightarrow> int" where
  "writeField word bitOffset bitWidth val =
     (let msk = bigint_shl 1 bitWidth - 1;
          cleared = word AND NOT (bigint_shl msk bitOffset)
      in cleared OR (bigint_shl (val AND msk) bitOffset))"

text \<open>The bit offsets at a 32-bit stride inside a 256-bit word.\<close>

definition stride_offsets :: "int set" where
  "stride_offsets = {0, 32, 64, 96, 128, 160, 192, 224}"

section \<open>Boundary of a liquidation sweep\<close>

text \<open>
  A sweep point as the simulator records it. \<^verbatim>\<open>findBoundaryFromSweep\<close> copies the
  points and sorts the copy with the comparator \<^verbatim>\<open>Number(a.pricePNS - b.pricePNS)\<close>.
  The conversion of a non-zero bigint to a number keeps its sign, so the comparator orders
  by \<open>pricePNS\<close>; \<^verbatim>\<open>Array.prototype.sort\<close> is stable, as \<^const>\<open>sort_key\<close> is.
  The two scans are the two \<^verbatim>\<open>for\<close> loops, with their index.
\<close>

record ForkPricePoint =
  price :: js_number
  pricePNS :: int
  isLiquidatable :: bool
  reverted :: bool
  revertReason :: "string option"
  gasUsed :: "int option"







section \<open>The fork simulator: configuration, price writes and the liquidatability check\<close>

record ForkLiquidationConfig =
  priceRangePct :: js_number
  priceSteps :: int
  binarySearchIterations :: int
  anvilTimeout :: int
  maintenanceMargin :: js_number

text \<open>
  The default configuration. The literal \<^verbatim>\<open>0.05\<close> denotes the double nearest to
  \<open>5 / 100\<close>. \<open>priceSteps\<close> is a number that holds an integer.
\<close>

definition DEFAULT_FORK_LIQUIDATION_CONFIG :: ForkLiquidationConfig where
  "DEFAULT_FORK_LIQUIDATION_CONFIG =
     \<lparr>priceRangePct = Fin 30, priceSteps = 20, binarySearchIterations = 10,
      anvilTimeout = 30000, maintenanceMargin = round64 (5 / 100)\<rparr>"

text \<open>
  How a field is packed within a storage word; a slot is the integer that its hex string
  denotes.
\<close>

record PackedField =
  pf_slot :: int
  pf_bitOffset :: int
  pf_bitWidth :: int

record PriceStorageLayout =
  l_markPNS :: PackedField
  l_oraclePNS :: PackedField
  l_markTimestamp :: PackedField
  l_oracleTimestamp :: "PackedField option"

text \<open>
  The forked node, as far as the simulator uses it: the storage of the exchange contract,
  the snapshots taken and not yet reverted, and the JSON-RPC calls made so far. A snapshot
  id is the position of the snapshot in the list; reverting to an id restores that storage
  and drops the snapshot and all later ones.
\<close>

datatype RpcCall =
    EvmSnapshot
  | EvmRevert nat
  | GetStorageAt int
  | SetStorageAt int int
  | ReadGetPosition int int

record Fork =
  storage :: "int \<Rightarrow> int"
  snapshots :: "(int \<Rightarrow> int) list"
  calls :: "RpcCall list"

definition getStorageAt :: "int \<Rightarrow> Fork \<Rightarrow> int \<times> Fork" where
  "getStorageAt slot f = (storage f slot, f\<lparr>calls := calls f @ [GetStorageAt slot]\<rparr>)"

text \<open>
  \<^verbatim>\<open>setStorageAt\<close>; the encoding of the value as a 32-byte hex string is not modelled,
  the word is stored as it is.
\<close>

definition setStorageAt :: "int \<Rightarrow> int \<Rightarrow> Fork \<Rightarrow> Fork" where
  "setStorageAt slot val f =
     f\<lparr>storage := (storage f)(slot := val), calls := calls f @ [SetStorageAt slot val]\<rparr>"

definition evmSnapshot :: "Fork \<Rightarrow> nat \<times> Fork" where
  "evmSnapshot f =
     (length (snapshots f),
      f\<lparr>snapshots := snapshots f @ [storage f], calls := calls f @ [EvmSnapshot]\<rparr>)"

definition evmRevert :: "nat \<Rightarrow> Fork \<Rightarrow> Fork" where
  "evmRevert snapId f =
     (if snapId < length (snapshots f)
      then f\<lparr>storage := snapshots f ! snapId, snapshots := take snapId (snapshots f),
             calls := calls f @ [EvmRevert snapId]\<rparr>
      else f\<lparr>calls := calls f @ [EvmRevert snapId]\<rparr>)"

text \<open>
  \<^verbatim>\<open>setPrice\<close>: read, modify and write the packed word. \<open>now\<close> is the wall clock in
  seconds, \<^verbatim>\<open>Math.floor(Date.now() / 1000)\<close>.
\<close>

definition setPrice :: "PriceStorageLayout \<Rightarrow> int \<Rightarrow> int \<Rightarrow> Fork \<Rightarrow> Fork" where
  "setPrice layout targetPricePNS now f =
     (let (word0, f1) = getStorageAt (pf_slot (l_markPNS layout)) f;
          word1 = writeField word0 (pf_bitOffset (l_markPNS layout))
                    (pf_bitWidth (l_markPNS layout)) targetPricePNS;
          word2 = (if pf_bitOffset (l_oraclePNS layout) \<noteq> pf_bitOffset (l_markPNS layout)
                   then writeField word1 (pf_bitOffset (l_oraclePNS layout))
                          (pf_bitWidth (l_oraclePNS layout)) targetPricePNS
                   else word1);
          word3 = (if pf_bitOffset (l_markTimestamp layout) \<ge> 0
                   then writeField word2 (pf_bitOffset (l_markTimestamp layout))
                          (pf_bitWidth (l_markTimestamp layout)) now
                   else word2);
          word4 = (case l_oracleTimestamp layout of
                     Some ots \<Rightarrow> writeField word3 (pf_bitOffset ots) (pf_bitWidth ots) now
                   | None \<Rightarrow> word3)
      in setStorageAt (pf_slot (l_markPNS layout)) word4 f1)"

text \<open>
  What \<^verbatim>\<open>getPosition(perpId, accountId)\<close> returns, as far as the check reads it: three
  fields of the position, and the mark price. The view function itself is code of the
  exchange contract; it is a parameter of the model, a function of the storage of the
  fork.
\<close>

record PositionRead =
  depositCNS :: int
  pnlCNS :: int
  lotLNS :: int

type_synonym getPosition_view = "(int \<Rightarrow> int) \<Rightarrow> int \<Rightarrow> int \<Rightarrow> PositionRead \<times> int"

record LiquidationCheck =
  liquidatable :: bool
  equity :: int
  maintenanceReq :: int

text \<open>
  \<^verbatim>\<open>checkLiquidatable\<close>. Equity and position value are bigint arithmetic; the
  maintenance requirement is
  \<^verbatim>\<open>BigInt(Math.floor(Number(positionValueCNS) * maintenanceMargin))\<close>, which throws a
  RangeError when the product is not finite.
\<close>

definition checkLiquidatable ::
  "getPosition_view \<Rightarrow> int \<Rightarrow> int \<Rightarrow> js_number \<Rightarrow> Fork \<Rightarrow> (js_error + LiquidationCheck) \<times> Fork" where
  "checkLiquidatable getPosition perpId accountId margin f =
     (let (position, markPrice) = getPosition (storage f) perpId accountId;
          f1 = f\<lparr>calls := calls f @ [ReadGetPosition perpId accountId]\<rparr>;
          eq = depositCNS position + pnlCNS position;
          positionValueCNS = markPrice * lotLNS position
      in case BigInt_of_number
                (Math_floor (js_mul (Number_of_bigint positionValueCNS) margin)) of
           Inl e \<Rightarrow> (Inl e, f1)
         | Inr req \<Rightarrow>
             (Inr \<lparr>liquidatable = eq < req, equity = eq, maintenanceReq = req\<rparr>, f1))"

section \<open>The coarse sweep of the fork simulation\<close>

text \<open>
  What the sweep of \<^verbatim>\<open>simulateForkLiquidation\<close> works with: the configuration, the
  current mark price as a number, the storage layout found, the position looked at, and
  three things that are not code of this module and are parameters here: the codec
  function \<^verbatim>\<open>priceToPNS\<close>, the view function of the contract, and the wall clock in
  seconds at each point of the sweep. The field names carry the prefix \<open>sc_\<close>.
\<close>

record SweepContext =
  sc_cfg :: ForkLiquidationConfig
  sc_currentMarkPrice :: js_number
  sc_layout :: PriceStorageLayout
  sc_perpId :: int
  sc_accountId :: int
  sc_priceToPNS :: "js_number \<Rightarrow> int"
  sc_getPosition :: getPosition_view
  sc_clock :: "int \<Rightarrow> int"

definition lowPrice :: "SweepContext \<Rightarrow> js_number" where
  "lowPrice ctx =
     js_mul (sc_currentMarkPrice ctx) (js_sub (Fin 1) (js_div (priceRangePct (sc_cfg ctx)) (Fin 100)))"

definition highPrice :: "SweepContext \<Rightarrow> js_number" where
  "highPrice ctx =
     js_mul (sc_currentMarkPrice ctx) (js_add (Fin 1) (js_div (priceRangePct (sc_cfg ctx)) (Fin 100)))"

definition sweepStep :: "SweepContext \<Rightarrow> js_number" where
  "sweepStep ctx =
     (if priceSteps (sc_cfg ctx) > 0
      then js_div (js_sub (highPrice ctx) (lowPrice ctx)) (Fin (of_int (priceSteps (sc_cfg ctx))))
      else Fin 0)"

text \<open>
  The body of the loop for the index \<open>i\<close>: the price of the point, the snapshot, the
  price write and the check inside \<^verbatim>\<open>try\<close>, and the revert in \<^verbatim>\<open>finally\<close>, which
  runs also when the check throws.
\<close>

definition sweepPoint :: "SweepContext \<Rightarrow> int \<Rightarrow> Fork \<Rightarrow> (js_error + ForkPricePoint) \<times> Fork" where
  "sweepPoint ctx i f =
     (let pr = js_add (lowPrice ctx) (js_mul (sweepStep ctx) (Fin (of_int i)));
          targetPNS = sc_priceToPNS ctx pr;
          (snapId, f1) = evmSnapshot f;
          f2 = setPrice (sc_layout ctx) targetPNS (sc_clock ctx i) f1;
          (res, f3) = checkLiquidatable (sc_getPosition ctx) (sc_perpId ctx) (sc_accountId ctx)
                        (maintenanceMargin (sc_cfg ctx)) f2;
          f4 = evmRevert snapId f3
      in case res of
           Inl e \<Rightarrow> (Inl e, f4)
         | Inr result \<Rightarrow>
             (Inr \<lparr>price = pr, pricePNS = targetPNS, isLiquidatable = liquidatable result,
                   reverted = False, revertReason = None, gasUsed = None\<rparr>, f4))"

text \<open>The loop \<^verbatim>\<open>for (let i = 0; i <= cfg.priceSteps; i++)\<close>, from the index \<open>i\<close> on.\<close>

function sweepLoop ::
  "SweepContext \<Rightarrow> int \<Rightarrow> ForkPricePoint list \<Rightarrow> Fork \<Rightarrow> (js_error + ForkPricePoint list) \<times> Fork" where
  "sweepLoop ctx i forkPricePoints f =
     (if i \<le> priceSteps (sc_cfg ctx)
      then (case sweepPoint ctx i f of
              (Inl e, f') \<Rightarrow> (Inl e, f')
            | (Inr pt, f') \<Rightarrow> sweepLoop ctx (i + 1) (forkPricePoints @ [pt]) f')
      else (Inr forkPricePoints, f))"
  by pat_completeness auto
termination
  by (relation "measure (\<lambda>(ctx, i, pts, f). nat (priceSteps (sc_cfg ctx) + 1 - i))") auto

declare sweepLoop.simps [simp del]

text \<open>Step 4 of \<^verbatim>\<open>simulateForkLiquidation\<close>: the coarse sweep.\<close>

definition coarseSweep :: "SweepContext \<Rightarrow> Fork \<Rightarrow> (js_error + ForkPricePoint list) \<times> Fork" where
  "coarseSweep ctx f = sweepLoop ctx 0 [] f"

text \<open>
  A fork with empty storage, and a view function that returns the same position and mark
  price whatever the storage holds.
\<close>

definition emptyFork :: Fork where
  "emptyFork = \<lparr>storage = (\<lambda>slot. 0), snapshots = [], calls = []\<rparr>"

definition constantView :: "int \<Rightarrow> int \<Rightarrow> int \<Rightarrow> int \<Rightarrow> getPosition_view" where
  "constantView deposit pnl lot mark =
     (\<lambda>st perp acct. (\<lparr>depositCNS = deposit, pnlCNS = pnl, lotLNS = lot\<rparr>, mark))"

text \<open>
  The word that \<open>setPrice\<close> writes, as a function of the word it read, and the JSON-RPC
  calls of one point of the sweep, as functions of the storage and of the number of
  snapshots before the point.
\<close>

definition packedWord :: "PriceStorageLayout \<Rightarrow> int \<Rightarrow> int \<Rightarrow> int \<Rightarrow> int" where
  "packedWord lay targetPricePNS now word0 =
     (let word1 = writeField word0 (pf_bitOffset (l_markPNS lay))
                    (pf_bitWidth (l_markPNS lay)) targetPricePNS;
          word2 = (if pf_bitOffset (l_oraclePNS lay) \<noteq> pf_bitOffset (l_markPNS lay)
                   then writeField word1 (pf_bitOffset (l_oraclePNS lay))
                          (pf_bitWidth (l_oraclePNS lay)) targetPricePNS
                   else word1);
          word3 = (if pf_bitOffset (l_markTimestamp lay) \<ge> 0
                   then writeField word2 (pf_bitOffset (l_markTimestamp lay))
                          (pf_bitWidth (l_markTimestamp lay)) now
                   else word2)
      in case l_oracleTimestamp lay of
           Some ots \<Rightarrow> writeField word3 (pf_bitOffset ots) (pf_bitWidth ots) now
         | None \<Rightarrow> word3)"

definition pointPrice :: "SweepContext \<Rightarrow> int \<Rightarrow> js_number" where
  "pointPrice ctx i = js_add (lowPrice ctx) (js_mul (sweepStep ctx) (Fin (of_int i)))"

definition pointWord :: "SweepContext \<Rightarrow> int \<Rightarrow> (int \<Rightarrow> int) \<Rightarrow> int" where
  "pointWord ctx i st =
     packedWord (sc_layout ctx) (sc_priceToPNS ctx (pointPrice ctx i)) (sc_clock ctx i)
       (st (pf_slot (l_markPNS (sc_layout ctx))))"

definition pointCalls :: "SweepContext \<Rightarrow> int \<Rightarrow> (int \<Rightarrow> int) \<Rightarrow> nat \<Rightarrow> RpcCall list" where
  "pointCalls ctx i st nsnap =
     [EvmSnapshot,
      GetStorageAt (pf_slot (l_markPNS (sc_layout ctx))),
      SetStorageAt (pf_slot (l_markPNS (sc_layout ctx))) (pointWord ctx i st),
      ReadGetPosition (sc_perpId ctx) (sc_accountId ctx),
      EvmRevert nsnap]"

text \<open>The fork on which the check of the point runs.\<close>

definition pointFork :: "SweepContext \<Rightarrow> int \<Rightarrow> Fork \<Rightarrow> Fork" where
  "pointFork ctx i f =
     setPrice (sc_layout ctx) (sc_priceToPNS ctx (pointPrice ctx i)) (sc_clock ctx i)
       (snd (evmSnapshot f))"

text \<open>
  An example of a sweep. The view function stands for a contract that keeps the mark
  price in the low 32 bits of slot 5 and holds a long position of one lot, entered at
  1000 with a deposit of 300. The price codec is the one of a perpetual with one price
  decimal.
\<close>

definition exampleLayout :: PriceStorageLayout where
  "exampleLayout =
     \<lparr>l_markPNS = \<lparr>pf_slot = 5, pf_bitOffset = 0, pf_bitWidth = 32\<rparr>,
      l_oraclePNS = \<lparr>pf_slot = 5, pf_bitOffset = 32, pf_bitWidth = 32\<rparr>,
      l_markTimestamp = \<lparr>pf_slot = 5, pf_bitOffset = 64, pf_bitWidth = 32\<rparr>,
      l_oracleTimestamp = None\<rparr>"

definition exampleView :: getPosition_view where
  "exampleView st perp acct =
     (let mark = extractField (st 5) 0 32
      in (\<lparr>depositCNS = 300, pnlCNS = (mark - 1000) * 1, lotLNS = 1\<rparr>, mark))"

text \<open>
  Modelled from the spec: \<^verbatim>\<open>priceToPNS\<close> of the wire codec (trading/orders), which is
  not among the sources; the price scaled by ten to the number of price decimals, here
  one, as in \<^verbatim>\<open>priceToPNS(95000.0, 1) = 950000\<close>. It serves the examples only.
\<close>

definition examplePriceToPNS :: "js_number \<Rightarrow> int" where
  "examplePriceToPNS x = (case x of Fin v \<Rightarrow> \<lfloor>v * 10 + 1 / 2\<rfloor> | _ \<Rightarrow> 0)"

definition defaultSweep :: SweepContext where
  "defaultSweep =
     \<lparr>sc_cfg = DEFAULT_FORK_LIQUIDATION_CONFIG, sc_currentMarkPrice = Fin 100,
      sc_layout = exampleLayout, sc_perpId = 16, sc_accountId = 100,
      sc_priceToPNS = examplePriceToPNS, sc_getPosition = exampleView,
      sc_clock = (\<lambda>i. 1700000000)\<rparr>"

text \<open>The same sweep with two steps, a range of fifty percent and a margin of one half.\<close>

definition smallSweep :: SweepContext where
  "smallSweep =
     defaultSweep\<lparr>sc_cfg := DEFAULT_FORK_LIQUIDATION_CONFIG
       \<lparr>priceRangePct := Fin 50, priceSteps := 2, maintenanceMargin := Fin (1 / 2)\<rparr>\<rparr>"

section \<open>The exchange state tracker\<close>

text \<open>
  Orders and positions as the trading socket delivers them. The wire fields are
  JavaScript numbers holding integers (identifiers, enum codes, scaled sizes); they are
  \<^typ>\<open>int\<close> here. Field names carry a prefix, since the wire names (\<^verbatim>\<open>st\<close>,
  \<^verbatim>\<open>r\<close>, \<^verbatim>\<open>p\<close>, \<^verbatim>\<open>s\<close>) are shared between the two interfaces. The status codes
  are those of \<^verbatim>\<open>OrderStatus\<close> (Pending 1, Open 2, PartiallyFilled 3, Filled 4,
  Cancelled 5, Rejected 6, Expired 7) and \<^verbatim>\<open>PositionStatus\<close> (Open 1, Closed 2,
  Liquidated 3). The optional remove flag \<^verbatim>\<open>r?: boolean\<close> is a \<^typ>\<open>bool option\<close>,
  truthy only as \<open>Some True\<close>.
\<close>

record Order =
  o_rq :: int
  o_mkt :: int
  o_acc :: int
  o_oid :: int
  o_st :: int
  o_t :: int
  o_p :: int
  o_os :: int
  o_fl :: int
  o_lv :: int
  o_r :: "bool option"

record Position =
  pos_mkt :: int
  pos_acc :: int
  pos_pid :: int
  pos_oid :: int
  pos_st :: int
  pos_sd :: int
  pos_ep :: int
  pos_s :: int
  pos_lv :: int

record WalletAccount =
  wa_in :: int
  wa_id :: int
  wa_fr :: bool
  wa_fw :: bool
  wa_b :: string
  wa_lb :: string

record RealtimeState =
  walletAccounts :: "WalletAccount list"
  apiPositions :: "int \<rightharpoonup> Position"
  apiOrders :: "int \<rightharpoonup> Order"
  connected :: bool
  lastWsUpdate :: int

datatype StateTrackerEvent =
    PositionsUpdated "int \<rightharpoonup> Position"
  | OrdersUpdated "int \<rightharpoonup> Order"
  | WalletUpdated "WalletAccount list"

text \<open>The state a new tracker starts from.\<close>

definition initialRealtimeState :: RealtimeState where
  "initialRealtimeState =
     \<lparr>walletAccounts = [], apiPositions = Map.empty, apiOrders = Map.empty,
      connected = False, lastWsUpdate = 0\<rparr>"

text \<open>The body of the loop of the \<^verbatim>\<open>positions\<close> handler, for one entry.\<close>

definition applyPosition :: "Position \<Rightarrow> (int \<rightharpoonup> Position) \<Rightarrow> (int \<rightharpoonup> Position)" where
  "applyPosition pos m =
     (if pos_st pos = 1 then m(pos_pid pos \<mapsto> pos)
      else m(pos_pid pos := None))"

text \<open>The body of the loop of the \<^verbatim>\<open>orders\<close> handler, for one entry.\<close>

definition applyOrder :: "Order \<Rightarrow> (int \<rightharpoonup> Order) \<Rightarrow> (int \<rightharpoonup> Order)" where
  "applyOrder order m =
     (if o_r order = Some True then m(o_oid order := None)
      else if o_st order = 2 \<or> o_st order = 3 then m(o_oid order \<mapsto> order)
      else m(o_oid order := None))"

text \<open>
  The two handlers that \<^verbatim>\<open>connectRealtime\<close> registers: the entries are applied in
  the order of the array, the time of the update (\<^verbatim>\<open>Date.now()\<close>, a parameter) is
  recorded, and the event with the updated map is emitted.
\<close>

definition positionsHandler ::
  "int \<Rightarrow> Position list \<Rightarrow> RealtimeState \<Rightarrow> RealtimeState \<times> StateTrackerEvent" where
  "positionsHandler now positions rs =
     (let rs' = rs\<lparr>apiPositions := fold applyPosition positions (apiPositions rs),
                    lastWsUpdate := now\<rparr>
      in (rs', PositionsUpdated (apiPositions rs')))"

definition ordersHandler ::
  "int \<Rightarrow> Order list \<Rightarrow> RealtimeState \<Rightarrow> RealtimeState \<times> StateTrackerEvent" where
  "ordersHandler now orders rs =
     (let rs' = rs\<lparr>apiOrders := fold applyOrder orders (apiOrders rs),
                    lastWsUpdate := now\<rparr>
      in (rs', OrdersUpdated (apiOrders rs')))"

text \<open>An order entry with the given id, status and remove flag, as the tests build one.\<close>

definition mkOrder :: "int \<Rightarrow> int \<Rightarrow> bool option \<Rightarrow> Order" where
  "mkOrder oid st r =
     \<lparr>o_rq = 1, o_mkt = 16, o_acc = 100, o_oid = oid, o_st = st, o_t = 1, o_p = 50000,
      o_os = 1000, o_fl = 0, o_lv = 1000, o_r = r\<rparr>"

definition mkPosition :: "int \<Rightarrow> int \<Rightarrow> Position" where
  "mkPosition pid st =
     \<lparr>pos_mkt = 16, pos_acc = 100, pos_pid = pid, pos_oid = 1, pos_st = st, pos_sd = 1,
      pos_ep = 50000, pos_s = 1000, pos_lv = 1000\<rparr>"

section \<open>The WebSocket client\<close>

text \<open>
  Frames are JSON objects; an object is the list of its properties in insertion order.
  The numbers that travel in frames (identifiers, scaled prices and sizes, flags,
  timestamps in milliseconds) are integers and are \<^typ>\<open>int\<close> here.
\<close>

datatype json =
    JNum int
  | JStr string
  | JBool bool
  | JArr "json list"
  | JObj "(string \<times> json) list"

type_synonym js_object = "(string \<times> json) list"

text \<open>Assignment to a property: an existing key keeps its place, a new key goes last.\<close>

fun obj_set :: "string \<Rightarrow> json \<Rightarrow> js_object \<Rightarrow> js_object" where
  "obj_set k v [] = [(k, v)]"
| "obj_set k v ((k', v') # rest) =
     (if k' = k then (k, v) # rest else (k', v') # obj_set k v rest)"

text \<open>The object spread \<^verbatim>\<open>{ ...a, ...b }\<close>: the properties of \<open>b\<close> assigned to \<open>a\<close> in order.\<close>

definition obj_spread :: "js_object \<Rightarrow> js_object \<Rightarrow> js_object" where
  "obj_spread a b = fold (\<lambda>(k, v). obj_set k v) b a"

definition obj_get :: "js_object \<Rightarrow> string \<Rightarrow> json option" where
  "obj_get obj k = map_of obj k"

text \<open>\<^verbatim>\<open>String.prototype.includes\<close>.\<close>

fun str_includes :: "string \<Rightarrow> string \<Rightarrow> bool" where
  "str_includes [] sub = (sub = [])"
| "str_includes (c # cs) sub = (take (length sub) (c # cs) = sub \<or> str_includes cs sub)"

datatype ReadyState = CONNECTING | OPEN | CLOSING | CLOSED

datatype WsEvent =
    EvConnect
  | EvDisconnect int
  | EvError
  | EvAuthExpired
  | EvFatal string

text \<open>
  The client. The first nine fields are the private fields of
  \<^verbatim>\<open>PerplWebSocketClient\<close>: \<open>ws\<close> is the ready state of the current socket
  (\<open>None\<close> for \<^verbatim>\<open>null\<close>), \<open>subscriptions\<close> the insertion-ordered map from stream to
  subscription id, \<open>pingInterval\<close> whether the ping timer is armed. The last four fields
  record what the client does to the outside: the frames it transmits, the sockets it
  opens (URL and, when one is passed, the \<^verbatim>\<open>Cookie\<close> header of the handshake), the
  events it emits, and the delays in milliseconds it waits on timers.
\<close>

record WsClient =
  ws :: "ReadyState option"
  wsUrl :: string
  chainId :: int
  authNonce :: "string option"
  subscriptions :: "(string \<times> int) list"
  reconnectAttempts :: nat
  pingInterval :: bool
  currentUrl :: "string option"
  cookies :: "string option"
  sent :: "json list"
  opened :: "(string \<times> string option) list"
  emitted :: "WsEvent list"
  waited :: "nat list"

definition maxReconnectAttempts :: nat where
  "maxReconnectAttempts = 10"

definition reconnectDelays :: "nat list" where
  "reconnectDelays = [1000, 2000, 4000, 8000, 16000, 32000, 60000]"

text \<open>\<^verbatim>\<open>new PerplWebSocketClient(wsUrl, chainId)\<close>.\<close>

definition newWsClient :: "string \<Rightarrow> int \<Rightarrow> WsClient" where
  "newWsClient url chain =
     \<lparr>ws = None, wsUrl = url, chainId = chain, authNonce = None, subscriptions = [],
      reconnectAttempts = 0, pingInterval = False, currentUrl = None, cookies = None,
      sent = [], opened = [], emitted = [], waited = []\<rparr>"

definition emit :: "WsEvent \<Rightarrow> WsClient \<Rightarrow> WsClient" where
  "emit ev st = st\<lparr>emitted := emitted st @ [ev]\<rparr>"

text \<open>\<^verbatim>\<open>send\<close>: the frame goes out only on an open socket; otherwise nothing happens.\<close>

definition send :: "json \<Rightarrow> WsClient \<Rightarrow> WsClient" where
  "send msg st =
     (if ws st = Some OPEN then st\<lparr>sent := sent st @ [msg]\<rparr> else st)"

definition isConnected :: "WsClient \<Rightarrow> bool" where
  "isConnected st = (ws st = Some OPEN)"

subsection \<open>Orders\<close>

text \<open>
  \<^verbatim>\<open>submitOrder\<close>. The request is the object the caller built; \<open>now\<close> is the reading
  of \<^verbatim>\<open>Date.now()\<close> during the call. \<^verbatim>\<open>request.rq || Date.now()\<close> takes the
  clock when \<open>rq\<close> is missing or zero.
\<close>

definition submitOrder :: "int \<Rightarrow> js_object \<Rightarrow> WsClient \<Rightarrow> int \<times> WsClient" where
  "submitOrder now request st =
     (let rq = (case obj_get request ''rq'' of
                  Some (JNum n) \<Rightarrow> if n \<noteq> 0 then n else now
                | _ \<Rightarrow> now)
      in (rq, send (JObj (obj_set ''rq'' (JNum rq)
                            (obj_spread [(''mt'', JNum 22)] request))) st))"

record OpenParams =
  op_marketId :: int
  op_accountId :: int
  op_size :: int
  op_price :: "int option"
  op_leverage :: int
  op_lastBlock :: int
  op_flags :: "int option"

record CloseParams =
  cp_marketId :: int
  cp_accountId :: int
  cp_positionId :: int
  cp_size :: int
  cp_price :: "int option"
  cp_lastBlock :: int
  cp_flags :: "int option"

text \<open>
  The parameter objects of the order methods; the field names carry a prefix.
  \<^verbatim>\<open>params.price ?? 0\<close> and \<^verbatim>\<open>params.flags ?? (params.price ? 0 : 4)\<close>: a price
  that is missing or zero is falsy and gives the flag 4, immediate-or-cancel.
\<close>

definition priceOrZero :: "int option \<Rightarrow> int" where
  "priceOrZero p = (case p of None \<Rightarrow> 0 | Some v \<Rightarrow> v)"

definition flagsOrDefault :: "int option \<Rightarrow> int option \<Rightarrow> int" where
  "flagsOrDefault fl p =
     (case fl of
        Some f \<Rightarrow> f
      | None \<Rightarrow> (case p of None \<Rightarrow> 4 | Some v \<Rightarrow> if v \<noteq> 0 then 0 else 4))"

definition openLong :: "int \<Rightarrow> OpenParams \<Rightarrow> WsClient \<Rightarrow> int \<times> WsClient" where
  "openLong now params st =
     submitOrder now
       [(''rq'', JNum now), (''mkt'', JNum (op_marketId params)), (''acc'', JNum (op_accountId params)),
        (''t'', JNum 1), (''p'', JNum (priceOrZero (op_price params))), (''s'', JNum (op_size params)),
        (''fl'', JNum (flagsOrDefault (op_flags params) (op_price params))),
        (''lv'', JNum (op_leverage params)), (''lb'', JNum (op_lastBlock params))] st"

definition openShort :: "int \<Rightarrow> OpenParams \<Rightarrow> WsClient \<Rightarrow> int \<times> WsClient" where
  "openShort now params st =
     submitOrder now
       [(''rq'', JNum now), (''mkt'', JNum (op_marketId params)), (''acc'', JNum (op_accountId params)),
        (''t'', JNum 2), (''p'', JNum (priceOrZero (op_price params))), (''s'', JNum (op_size params)),
        (''fl'', JNum (flagsOrDefault (op_flags params) (op_price params))),
        (''lv'', JNum (op_leverage params)), (''lb'', JNum (op_lastBlock params))] st"

definition closeLong :: "int \<Rightarrow> CloseParams \<Rightarrow> WsClient \<Rightarrow> int \<times> WsClient" where
  "closeLong now params st =
     submitOrder now
       [(''rq'', JNum now), (''mkt'', JNum (cp_marketId params)), (''acc'', JNum (cp_accountId params)),
        (''t'', JNum 3), (''p'', JNum (priceOrZero (cp_price params))), (''s'', JNum (cp_size params)),
        (''fl'', JNum (flagsOrDefault (cp_flags params) (cp_price params))),
        (''lp'', JNum (cp_positionId params)), (''lv'', JNum 0),
        (''lb'', JNum (cp_lastBlock params))] st"

definition closeShort :: "int \<Rightarrow> CloseParams \<Rightarrow> WsClient \<Rightarrow> int \<times> WsClient" where
  "closeShort now params st =
     submitOrder now
       [(''rq'', JNum now), (''mkt'', JNum (cp_marketId params)), (''acc'', JNum (cp_accountId params)),
        (''t'', JNum 4), (''p'', JNum (priceOrZero (cp_price params))), (''s'', JNum (cp_size params)),
        (''fl'', JNum (flagsOrDefault (cp_flags params) (cp_price params))),
        (''lp'', JNum (cp_positionId params)), (''lv'', JNum 0),
        (''lb'', JNum (cp_lastBlock params))] st"

definition cancelOrder :: "int \<Rightarrow> int \<Rightarrow> int \<Rightarrow> int \<Rightarrow> int \<Rightarrow> WsClient \<Rightarrow> int \<times> WsClient" where
  "cancelOrder now mktId accId orderId lastBlk st =
     submitOrder now
       [(''rq'', JNum now), (''mkt'', JNum mktId), (''acc'', JNum accId),
        (''oid'', JNum orderId), (''t'', JNum 5), (''s'', JNum 0), (''fl'', JNum 0),
        (''lv'', JNum 0), (''lb'', JNum lastBlk)] st"

subsection \<open>Subscriptions\<close>

definition subscriptionRequest :: "string list \<Rightarrow> json" where
  "subscriptionRequest streams =
     JObj [(''mt'', JNum 5),
           (''subs'', JArr (map (\<lambda>stream. JObj [(''stream'', JStr stream),
                                               (''subscribe'', JBool True)]) streams))]"

definition subscribe :: "string \<Rightarrow> WsClient \<Rightarrow> WsClient" where
  "subscribe stream st = send (subscriptionRequest [stream]) st"



definition resubscribeAll :: "WsClient \<Rightarrow> WsClient" where
  "resubscribeAll st =
     (let streams = map fst (subscriptions st)
      in if length streams > 0 then send (subscriptionRequest streams) st else st)"

subsection \<open>Connecting and reconnecting\<close>

text \<open>
  How a connection attempt ends is the environment's choice: the socket is refused (the
  \<^verbatim>\<open>error\<close> event, the promise rejects), or it opens. For the trading endpoint an
  opened attempt also says which session id \<^verbatim>\<open>crypto.randomUUID()\<close> returned and
  whether the wallet snapshot that confirms the sign-in arrived within the ten seconds.
\<close>

datatype Attempt = Refused | Opens string bool

text \<open>
  \<^verbatim>\<open>connect(url, cookies)\<close>, up to the creation of the socket: the URL is recorded,
  a truthy (non-empty) cookie string is kept in the field \<open>cookies\<close>, and the socket is
  created with a \<^verbatim>\<open>Cookie\<close> header only if a truthy cookie string was passed to this
  call.
\<close>

definition truthy_string :: "string option \<Rightarrow> bool" where
  "truthy_string s = (case s of None \<Rightarrow> False | Some v \<Rightarrow> v \<noteq> [])"

definition connect_begin :: "string \<Rightarrow> string option \<Rightarrow> WsClient \<Rightarrow> WsClient" where
  "connect_begin url cks st =
     (let st1 = st\<lparr>currentUrl := Some url\<rparr>;
          st2 = (if truthy_string cks then st1\<lparr>cookies := cks\<rparr> else st1);
          options = (if truthy_string cks then cks else None)
      in st2\<lparr>ws := Some CONNECTING, opened := opened st2 @ [(url, options)]\<rparr>)"

text \<open>The \<^verbatim>\<open>open\<close> handler of the socket, and the \<^verbatim>\<open>error\<close> handler.\<close>

definition on_open :: "WsClient \<Rightarrow> WsClient" where
  "on_open st = emit EvConnect (st\<lparr>ws := Some OPEN, reconnectAttempts := 0, pingInterval := True\<rparr>)"

definition on_error :: "WsClient \<Rightarrow> WsClient" where
  "on_error st = emit EvError (st\<lparr>ws := Some CLOSED\<rparr>)"

text \<open>
  \<^verbatim>\<open>connect\<close> with its outcome: \<open>True\<close> when the promise resolves, \<open>False\<close> when it
  rejects.
\<close>

definition connect :: "string \<Rightarrow> string option \<Rightarrow> Attempt \<Rightarrow> WsClient \<Rightarrow> bool \<times> WsClient" where
  "connect url cks outcome st =
     (case outcome of
        Refused \<Rightarrow> (False, on_error (connect_begin url cks st))
      | Opens ses wallet \<Rightarrow> (True, on_open (connect_begin url cks st)))"

definition connectMarketData :: "Attempt \<Rightarrow> WsClient \<Rightarrow> bool \<times> WsClient" where
  "connectMarketData outcome st = connect (wsUrl st @ ''/ws/v1/market-data'') None outcome st"

text \<open>
  \<^verbatim>\<open>connectTrading(authNonce, cookies?)\<close>: the nonce is kept, the socket is opened
  with the cookies of this call, the sign-in frame with the nonce is sent, and the promise
  resolves when the wallet snapshot arrives, or rejects after the timeout.
\<close>

definition connectTrading ::
  "string \<Rightarrow> string option \<Rightarrow> Attempt \<Rightarrow> WsClient \<Rightarrow> bool \<times> WsClient" where
  "connectTrading nonce cks outcome st =
     (let st1 = st\<lparr>authNonce := Some nonce\<rparr>;
          (ok, st2) = connect (wsUrl st1 @ ''/ws/v1/trading'') cks outcome st1
      in if \<not> ok then (False, st2)
         else (case outcome of
                 Refused \<Rightarrow> (False, st2)
               | Opens ses wallet \<Rightarrow>
                   (wallet,
                    send (JObj [(''mt'', JNum 4), (''chain_id'', JNum (chainId st2)),
                                (''nonce'', JStr nonce), (''ses'', JStr ses)]) st2)))"

text \<open>
  \<^verbatim>\<open>handleDisconnect(code)\<close>. The list holds the outcomes of the connection attempts
  still to come; when it is exhausted the pending attempt never settles and the client
  stays as it is after creating the socket. A rejected attempt is handled as a disconnect
  with code 0.
\<close>

fun handleDisconnect :: "int \<Rightarrow> Attempt list \<Rightarrow> WsClient \<Rightarrow> WsClient" where
  "handleDisconnect code outcomes st =
     (let st1 = emit (EvDisconnect code) st
      in if code = 3401 then emit EvAuthExpired st1
         else if reconnectAttempts st1 < maxReconnectAttempts \<and> currentUrl st1 \<noteq> None
         then (let delay = reconnectDelays ! (min (reconnectAttempts st1) (length reconnectDelays - 1));
                   st2 = st1\<lparr>reconnectAttempts := reconnectAttempts st1 + 1,
                              waited := waited st1 @ [delay]\<rparr>;
                   url = the (currentUrl st2);
                   trading = (truthy_string (authNonce st2) \<and> str_includes url ''trading'')
               in case outcomes of
                    [] \<Rightarrow> (if trading
                           then connect_begin (wsUrl st2 @ ''/ws/v1/trading'') None st2
                           else connect_begin url None st2)
                  | outcome # rest \<Rightarrow>
                      (let (ok, st3) =
                             (if trading then connectTrading (the (authNonce st2)) None outcome st2
                              else connect url None outcome st2)
                       in if ok then resubscribeAll st3
                          else handleDisconnect 0 rest st3))
         else emit (EvFatal ''Max reconnect attempts exceeded'') st1)"

text \<open>The \<^verbatim>\<open>close\<close> handler of the socket: the ping timer is stopped first.\<close>

definition on_close :: "int \<Rightarrow> Attempt list \<Rightarrow> WsClient \<Rightarrow> WsClient" where
  "on_close code outcomes st =
     handleDisconnect code outcomes (st\<lparr>ws := Some CLOSED, pingInterval := False\<rparr>)"

text \<open>
  \<^verbatim>\<open>disconnect()\<close>, the caller's own closing of the socket; the \<^verbatim>\<open>close\<close> event of
  the socket it closes is not modelled here.
\<close>

definition disconnect :: "WsClient \<Rightarrow> WsClient" where
  "disconnect st = st\<lparr>pingInterval := False, ws := None, currentUrl := None\<rparr>"

declare handleDisconnect.simps [simp del]


text \<open>The sign-in frame of the trading socket.\<close>

definition authSignIn :: "int \<Rightarrow> string \<Rightarrow> string \<Rightarrow> json" where
  "authSignIn chain nonce ses =
     JObj [(''mt'', JNum 4), (''chain_id'', JNum chain), (''nonce'', JStr nonce),
           (''ses'', JStr ses)]"

text \<open>A client of the test network with its trading socket signed in.\<close>

definition tradingClient :: WsClient where
  "tradingClient =
     snd (connectTrading ''nonce-1'' (Some ''jwt=tok'') (Opens ''ses-1'' True)
            (newWsClient ''wss://testnet.perpl.xyz'' 10143))"

definition marketDataClient :: WsClient where
  "marketDataClient =
     snd (connectMarketData (Opens [] True) (newWsClient ''wss://testnet.perpl.xyz'' 10143))"


section \<open>The REST client\<close>

text \<open>Decimal rendering of a number that holds an integer, as a template string does.\<close>

function string_of_nat :: "nat \<Rightarrow> string" where
  "string_of_nat n =
     (if n < 10 then [''0123456789'' ! n]
      else string_of_nat (n div 10) @ [''0123456789'' ! (n mod 10)])"
  by pat_completeness auto
termination
  by (relation "measure (\<lambda>n. n)") auto

declare string_of_nat.simps [simp del]

definition string_of_int :: "int \<Rightarrow> string" where
  "string_of_int i =
     (if i < 0 then ''-'' @ string_of_nat (nat (- i)) else string_of_nat (nat i))"

record ApiConfig =
  cfg_baseUrl :: string
  cfg_wsUrl :: string
  cfg_chainId :: int

record AuthState =
  as_nonce :: string
  as_cookies :: string
  as_authenticated :: bool

text \<open>
  What a call of the client can throw: an \<^verbatim>\<open>ApiError\<close> with its message, status and
  optional body, or the plain \<^verbatim>\<open>Error\<close> of \<^verbatim>\<open>requireAuth\<close>.
\<close>

datatype ApiFailure =
    ApiError string int "string option"
  | PlainError string

record HttpRequest =
  rq_method :: string
  rq_url :: string
  rq_headers :: "(string \<times> string) list"
  rq_body :: "json option"

text \<open>
  The response of \<^verbatim>\<open>fetch\<close>, an input of the model: status, the \<^verbatim>\<open>ok\<close> flag, the
  body as text and as parsed JSON of the expected type, and the \<^verbatim>\<open>Set-Cookie\<close> headers.
\<close>

record 'a HttpResponse =
  rs_status :: int
  rs_ok :: bool
  rs_text :: string
  rs_json :: 'a
  rs_setCookie :: "string list"

text \<open>The client: its two private fields, and the requests it has issued.\<close>

record PerplApiClient =
  config :: ApiConfig
  authState :: "AuthState option"
  requests :: "HttpRequest list"

definition newApiClient :: "ApiConfig \<Rightarrow> PerplApiClient" where
  "newApiClient cfg = \<lparr>config = cfg, authState = None, requests = []\<rparr>"

definition requestHeaders :: "PerplApiClient \<Rightarrow> (string \<times> string) list" where
  "requestHeaders c =
     [(''Content-Type'', ''application/json'')] @
     (case authState c of
        None \<Rightarrow> []
      | Some a \<Rightarrow> (''X-Auth-Nonce'', as_nonce a) #
                  (if as_cookies a \<noteq> [] then [(''Cookie'', as_cookies a)] else []))"

definition requestWithResponse ::
  "string \<Rightarrow> string \<Rightarrow> json option \<Rightarrow> 'a HttpResponse \<Rightarrow> PerplApiClient
     \<Rightarrow> (ApiFailure + 'a HttpResponse \<times> 'a) \<times> PerplApiClient" where
  "requestWithResponse method path body response c =
     (let url = cfg_baseUrl (config c) @ path;
          c1 = c\<lparr>requests := requests c @
                 [\<lparr>rq_method = method, rq_url = url, rq_headers = requestHeaders c,
                   rq_body = body\<rparr>]\<rparr>
      in if rs_status response = 401
         then (Inl (ApiError ''Unauthorized'' 401 None), c1\<lparr>authState := None\<rparr>)
         else if rs_status response = 418
         then (Inl (ApiError ''Access code required'' 418 None), c1)
         else if rs_status response = 423
         then (Inl (ApiError ''Access code invalid or exhausted'' 423 None), c1)
         else if rs_status response = 429
         then (Inl (ApiError ''Rate limited'' 429 None), c1)
         else if rs_status response = 404
         then (Inl (ApiError ''Not found'' 404 None), c1)
         else if \<not> rs_ok response
         then (Inl (ApiError (''API error: '' @ string_of_int (rs_status response))
                      (rs_status response) (Some (rs_text response))), c1)
         else (Inr (response, rs_json response), c1))"

text \<open>
  The private helpers \<^verbatim>\<open>request\<close>, \<^verbatim>\<open>get\<close> and \<^verbatim>\<open>post\<close>, under the names
  \<open>api_request\<close>, \<open>api_get\<close> and \<open>api_post\<close>.
\<close>

definition api_request ::
  "string \<Rightarrow> string \<Rightarrow> json option \<Rightarrow> 'a HttpResponse \<Rightarrow> PerplApiClient
     \<Rightarrow> (ApiFailure + 'a) \<times> PerplApiClient" where
  "api_request method path body response c =
     (case requestWithResponse method path body response c of
        (Inl e, c') \<Rightarrow> (Inl e, c')
      | (Inr (resp, data), c') \<Rightarrow> (Inr data, c'))"

definition api_get :: "string \<Rightarrow> 'a HttpResponse \<Rightarrow> PerplApiClient \<Rightarrow> (ApiFailure + 'a) \<times> PerplApiClient" where
  "api_get path response c = api_request ''GET'' path None response c"

definition api_post ::
  "string \<Rightarrow> json \<Rightarrow> 'a HttpResponse \<Rightarrow> PerplApiClient \<Rightarrow> (ApiFailure + 'a) \<times> PerplApiClient" where
  "api_post path body response c = api_request ''POST'' path (Some body) response c"

definition requireAuth :: "PerplApiClient \<Rightarrow> ApiFailure + unit" where
  "requireAuth c =
     (if authState c = None then Inl (PlainError ''Not authenticated. Call authenticate() first.'')
      else Inr ())"

subsection \<open>Signing in\<close>

record AuthPayloadResponse =
  ap_message :: string
  ap_nonce :: string
  ap_issued_at :: int
  ap_mac :: string

record AuthConnectResponse =
  ac_nonce :: string

text \<open>\<^verbatim>\<open>setCookies.map((c) => c.split(";")[0]).join("; ")\<close>.\<close>

fun join_cookies :: "string list \<Rightarrow> string" where
  "join_cookies [] = []"
| "join_cookies [c] = takeWhile (\<lambda>x. x \<noteq> CHR '';'') c"
| "join_cookies (c # cs) = takeWhile (\<lambda>x. x \<noteq> CHR '';'') c @ ''; '' @ join_cookies cs"

text \<open>
  \<^verbatim>\<open>authenticate\<close>: the payload request, the caller's signature of the message (an
  input), the connect request, and the capture of the cookies and of the session nonce.
\<close>

definition authenticate ::
  "string \<Rightarrow> string \<Rightarrow> AuthPayloadResponse HttpResponse \<Rightarrow> AuthConnectResponse HttpResponse
     \<Rightarrow> PerplApiClient \<Rightarrow> (ApiFailure + string) \<times> PerplApiClient" where
  "authenticate address signature payloadResponse connectResponse c =
     (case api_post ''/v1/auth/payload''
             (JObj [(''chain_id'', JNum (cfg_chainId (config c))), (''address'', JStr address)])
             payloadResponse c of
        (Inl e, c1) \<Rightarrow> (Inl e, c1)
      | (Inr payload, c1) \<Rightarrow>
          (case requestWithResponse ''POST'' ''/v1/auth/connect''
                  (Some (JObj [(''chain_id'', JNum (cfg_chainId (config c1))),
                               (''address'', JStr address),
                               (''message'', JStr (ap_message payload)),
                               (''nonce'', JStr (ap_nonce payload)),
                               (''issued_at'', JNum (ap_issued_at payload)),
                               (''mac'', JStr (ap_mac payload)),
                               (''signature'', JStr signature)]))
                  connectResponse c1 of
             (Inl e, c2) \<Rightarrow> (Inl e, c2)
           | (Inr (resp, data), c2) \<Rightarrow>
               (Inr (ac_nonce data),
                c2\<lparr>authState := Some \<lparr>as_nonce = ac_nonce data,
                                       as_cookies = join_cookies (rs_setCookie resp),
                                       as_authenticated = True\<rparr>\<rparr>)))"

definition clearAuth :: "PerplApiClient \<Rightarrow> PerplApiClient" where
  "clearAuth c = c\<lparr>authState := None\<rparr>"

subsection \<open>Endpoints\<close>

record 'a HistoryPage =
  hp_d :: "'a list"
  hp_np :: string

text \<open>
  The query string of a history call: \<^verbatim>\<open>count\<close>, and \<^verbatim>\<open>page\<close> when a truthy cursor
  is given. The percent-encoding that \<^verbatim>\<open>URLSearchParams\<close> applies to the cursor is not
  modelled.
\<close>

definition historyQuery :: "string option \<Rightarrow> int \<Rightarrow> string" where
  "historyQuery page count =
     ''count='' @ string_of_int count @
     (case page of
        None \<Rightarrow> []
      | Some p \<Rightarrow> if p \<noteq> [] then ''&page='' @ p else [])"

definition historyCall ::
  "string \<Rightarrow> string option \<Rightarrow> int \<Rightarrow> 'a HistoryPage HttpResponse \<Rightarrow> PerplApiClient
     \<Rightarrow> (ApiFailure + 'a HistoryPage) \<times> PerplApiClient" where
  "historyCall name page count response c =
     (case requireAuth c of
        Inl e \<Rightarrow> (Inl e, c)
      | Inr u \<Rightarrow> api_get (''/v1/trading/'' @ name @ ''?'' @ historyQuery page count) response c)"

definition getAccountHistory ::
  "string option \<Rightarrow> int \<Rightarrow> 'a HistoryPage HttpResponse \<Rightarrow> PerplApiClient
     \<Rightarrow> (ApiFailure + 'a HistoryPage) \<times> PerplApiClient" where
  "getAccountHistory page count response c = historyCall ''account-history'' page count response c"

definition getFills ::
  "string option \<Rightarrow> int \<Rightarrow> 'a HistoryPage HttpResponse \<Rightarrow> PerplApiClient
     \<Rightarrow> (ApiFailure + 'a HistoryPage) \<times> PerplApiClient" where
  "getFills page count response c = historyCall ''fills'' page count response c"

definition getOrderHistory ::
  "string option \<Rightarrow> int \<Rightarrow> 'a HistoryPage HttpResponse \<Rightarrow> PerplApiClient
     \<Rightarrow> (ApiFailure + 'a HistoryPage) \<times> PerplApiClient" where
  "getOrderHistory page count response c = historyCall ''order-history'' page count response c"

definition getPositionHistory ::
  "string option \<Rightarrow> int \<Rightarrow> 'a HistoryPage HttpResponse \<Rightarrow> PerplApiClient
     \<Rightarrow> (ApiFailure + 'a HistoryPage) \<times> PerplApiClient" where
  "getPositionHistory page count response c = historyCall ''position-history'' page count response c"

definition getContext :: "'a HttpResponse \<Rightarrow> PerplApiClient \<Rightarrow> (ApiFailure + 'a) \<times> PerplApiClient" where
  "getContext response c = api_get ''/v1/pub/context'' response c"

text \<open>\<^verbatim>\<open>getRefCode\<close>, the one call that catches the 404 itself and returns \<^verbatim>\<open>null\<close>.\<close>

definition getRefCode ::
  "'a HttpResponse \<Rightarrow> PerplApiClient \<Rightarrow> (ApiFailure + 'a option) \<times> PerplApiClient" where
  "getRefCode response c =
     (case requireAuth c of
        Inl e \<Rightarrow> (Inl e, c)
      | Inr u \<Rightarrow>
          (case api_get ''/v1/profile/ref-code'' response c of
             (Inr data, c') \<Rightarrow> (Inr (Some data), c')
           | (Inl (ApiError msg status body), c') \<Rightarrow>
               if status = 404 then (Inr None, c') else (Inl (ApiError msg status body), c')
           | (Inl e, c') \<Rightarrow> (Inl e, c')))"

text \<open>A client of the test network, signed in with one cookie.\<close>

definition testnetConfig :: ApiConfig where
  "testnetConfig =
     \<lparr>cfg_baseUrl = ''https://testnet.perpl.xyz/api'', cfg_wsUrl = ''wss://testnet.perpl.xyz'',
      cfg_chainId = 10143\<rparr>"

definition signedInClient :: PerplApiClient where
  "signedInClient =
     snd (authenticate ''0x1234'' ''0xsig''
            \<lparr>rs_status = 200, rs_ok = True, rs_text = [],
             rs_json = \<lparr>ap_message = ''Sign'', ap_nonce = ''n'', ap_issued_at = 1, ap_mac = ''m''\<rparr>,
             rs_setCookie = []\<rparr>
            \<lparr>rs_status = 200, rs_ok = True, rs_text = [],
             rs_json = \<lparr>ac_nonce = ''auth-nonce''\<rparr>,
             rs_setCookie = [''jwt=tok; Path=/'']\<rparr>
            (newApiClient testnetConfig))"

text \<open>A 404 response to a history call; its JSON body is never read.\<close>

definition notFoundResponse :: "int HistoryPage HttpResponse" where
  "notFoundResponse =
     \<lparr>rs_status = 404, rs_ok = False, rs_text = [], rs_json = \<lparr>hp_d = [], hp_np = []\<rparr>,
      rs_setCookie = []\<rparr>"

chapter \<open>Properties\<close>

section \<open>Reading and writing a packed field\<close>

lemma bit_extractField:
  "bit (extractField w (int k) (int b)) n = (n < b \<and> bit w (k + n))"
  by (auto simp add: extractField_def Let_def bigint_shl_def bigint_shr_def
      bit_simps simp flip: mask_eq_exp_minus_1)

lemma bit_writeField:
  "bit (writeField w (int k) (int b) v) n =
     (if k \<le> n \<and> n < k + b then bit v (n - k) else bit w n)"
  by (auto simp add: writeField_def Let_def bigint_shl_def bit_simps
      simp flip: mask_eq_exp_minus_1)

lemma writeField_extractField_same:
  "writeField w (int k) (int b) (extractField w (int k) (int b)) = w"
  by (rule bit_eqI) (auto simp add: bit_writeField bit_extractField)

lemma extractField_writeField_same:
  "extractField (writeField w (int k) (int b) v) (int k) (int b) = take_bit b v"
  by (rule bit_eqI) (auto simp add: bit_writeField bit_extractField bit_simps)

lemma writeField_stays_256:
  assumes "0 \<le> w" and "w < 2 ^ 256" and "k + b \<le> 256"
  shows "0 \<le> writeField w (int k) (int b) v \<and> writeField w (int k) (int b) v < 2 ^ 256"
proof -
  have "take_bit 256 (writeField w (int k) (int b) v) = writeField w (int k) (int b) v"
  proof (rule bit_eqI)
    fix n
    have "take_bit 256 w = w" using assms by (simp add: take_bit_int_eq_self)
    then have "bit w n \<Longrightarrow> n < 256" by (metis bit_take_bit_iff)
    then show "bit (take_bit 256 (writeField w (int k) (int b) v)) n
        = bit (writeField w (int k) (int b) v) n"
      using assms(3) by (auto simp add: bit_writeField bit_simps)
  qed
  then show ?thesis
    by (metis take_bit_int_less_exp take_bit_nonnegative)
qed

lemma stride_offsets_nat:
  "off \<in> stride_offsets \<Longrightarrow> \<exists>k. off = int k \<and> k + 32 \<le> 256"
  unfolding stride_offsets_def
  by (elim insertE emptyE)
     (rule exI [of _ "nat off"], simp)+

text \<open>
  Claim C1. For every 256-bit word \<open>w\<close> and every bit offset in
  \<open>{0, 32, \<dots>, 224}\<close>: writing back the 32-bit field just extracted gives \<open>w\<close> again;
  and for every value \<open>v\<close>, writing \<open>v\<close> leaves every bit outside the 32-bit window
  at that offset as it was in \<open>w\<close>, and extracting the field afterwards gives \<open>v\<close>
  masked to 32 bits.
\<close>

theorem packed_field_roundtrip:
  assumes "0 \<le> w" and "w < 2 ^ 256" and "off \<in> stride_offsets"
  shows "writeField w off 32 (extractField w off 32) = w \<and>
         (\<forall>v. (\<forall>n. \<not> (nat off \<le> n \<and> n < nat off + 32) \<longrightarrow>
                    bit (writeField w off 32 v) n = bit w n) \<and>
              extractField (writeField w off 32 v) off 32 = v AND mask 32)"
proof -
  obtain k where k: "off = int k" "k + 32 \<le> 256"
    using stride_offsets_nat [OF assms(3)] by blast
  have "writeField w off 32 (extractField w off 32) = w"
    using writeField_extractField_same [of w k 32] unfolding k by simp
  moreover have "\<not> (nat off \<le> n \<and> n < nat off + 32) \<longrightarrow>
      bit (writeField w off 32 v) n = bit w n" for v n
    using bit_writeField [of w k 32 v n] unfolding k by auto
  moreover have "extractField (writeField w off 32 v) off 32 = v AND mask 32" for v
    using extractField_writeField_same [of w k 32 v] unfolding k
    by (simp add: take_bit_eq_mask)
  ultimately show ?thesis by blast
qed

theorem packed_field_roundtrip_witness:
  "(0::int) \<le> 0xAAAABBBBCCCCDDDD \<and> (0xAAAABBBBCCCCDDDD::int) < 2 ^ 256 \<and>
   (32::int) \<in> stride_offsets \<and>
   writeField 0xAAAABBBBCCCCDDDD 32 32 (extractField 0xAAAABBBBCCCCDDDD 32 32)
     = 0xAAAABBBBCCCCDDDD \<and>
   bit (writeField 0xAAAABBBBCCCCDDDD 32 32 0x199999999) 5 = bit (0xAAAABBBBCCCCDDDD::int) 5 \<and>
   extractField (writeField 0xAAAABBBBCCCCDDDD 32 32 0x199999999) 32 32
     = 0x199999999 AND mask 32"
proof -
  have h1: "(0::int) \<le> 0xAAAABBBBCCCCDDDD" by simp
  have h2: "(0xAAAABBBBCCCCDDDD::int) < 2 ^ 256" by simp
  have h3: "(32::int) \<in> stride_offsets" by (simp add: stride_offsets_def)
  have n5: "\<not> (nat 32 \<le> (5::nat) \<and> (5::nat) < nat 32 + 32)" by simp
  from packed_field_roundtrip [OF h1 h2 h3] n5 h1 h2 h3 show ?thesis by blast
qed

section \<open>Rounding to binary64\<close>

lemma pow2_less_iff: "(2::rat) powi m < 2 powi n \<longleftrightarrow> m < n"
proof
  assume l: "(2::rat) powi m < 2 powi n"
  show "m < n"
  proof (rule ccontr)
    assume "\<not> m < n"
    then have "n \<le> m" by simp
    then have "(2::rat) powi n \<le> 2 powi m" by (intro power_int_increasing) simp_all
    with l show False by simp
  qed
next
  assume "m < n"
  then show "(2::rat) powi m < 2 powi n" by (intro power_int_strict_increasing) simp_all
qed

lemma pow2_le_iff: "(2::rat) powi m \<le> 2 powi n \<longleftrightarrow> m \<le> n"
  using pow2_less_iff [of n m] by (simp add: not_less [symmetric])

lemma bitlen_powi_bounds:
  assumes "0 < x"
  shows "(2::rat) powi (bitlen x - 1) \<le> of_int x" and "of_int x < (2::rat) powi (bitlen x)"
proof -
  from bitlen_bounds [OF assms]
  have lo: "2 ^ nat (bitlen x - 1) \<le> x" and hi: "x < 2 ^ nat (bitlen x)" by auto
  have pos: "1 \<le> bitlen x"
    using assms bitlen_eq_zero_iff [of x] bitlen_nonneg [of x] by linarith
  have "(2::rat) powi (bitlen x - 1) = of_int (2 ^ nat (bitlen x - 1))"
    using pos by (simp add: power_int_def)
  also have "\<dots> \<le> of_int x" using lo by (simp only: of_int_le_iff)
  finally show "(2::rat) powi (bitlen x - 1) \<le> of_int x" .
  have "(of_int x :: rat) < of_int (2 ^ nat (bitlen x))" using hi by (simp only: of_int_less_iff)
  also have "\<dots> = (2::rat) powi (bitlen x)"
    using pos by (simp add: power_int_def)
  finally show "of_int x < (2::rat) powi (bitlen x)" .
qed

lemma floor_log2_bounds:
  assumes "0 < a"
  shows "2 powi (floor_log2 a) \<le> a \<and> a < 2 powi (floor_log2 a + 1)"
proof -
  obtain p q where pq: "quotient_of a = (p, q)" by (cases "quotient_of a")
  then have q: "0 < q" and a: "a = of_int p / of_int q"
    using quotient_of_denom_pos quotient_of_div by blast+
  have p: "0 < p"
    using assms a q by (simp add: zero_less_divide_iff)
  let ?e = "bitlen p - bitlen q"
  note bp = bitlen_powi_bounds [OF p] and bq = bitlen_powi_bounds [OF q]
  have qpos: "(0::rat) < of_int q" using q by simp
  have up: "a < 2 powi (?e + 1)"
  proof -
    have "a * of_int q = of_int p" using a qpos by simp
    also have "\<dots> < (2::rat) powi (bitlen p)" by (rule bp(2))
    also have "\<dots> = (2::rat) powi (?e + 1) * 2 powi (bitlen q - 1)"
      by (simp flip: power_int_add)
    also have "\<dots> \<le> (2::rat) powi (?e + 1) * of_int q"
      using bq(1) by (intro mult_left_mono) simp_all
    finally show ?thesis using qpos by simp
  qed
  have lo: "2 powi (?e - 1) \<le> a"
  proof -
    have "(2::rat) powi (?e - 1) * of_int q \<le> (2::rat) powi (?e - 1) * 2 powi (bitlen q)"
      using bq(2) by (intro mult_left_mono less_imp_le) simp_all
    also have "\<dots> = (2::rat) powi (bitlen p - 1)"
      by (simp flip: power_int_add)
    also have "\<dots> \<le> of_int p" by (rule bp(1))
    also have "\<dots> = a * of_int q" using a qpos by simp
    finally show ?thesis using qpos by simp
  qed
  show ?thesis
  proof (cases "2 powi ?e \<le> a")
    case True
    then have "floor_log2 a = ?e" by (simp add: floor_log2_def pq)
    with True up show ?thesis by simp
  next
    case False
    then have "floor_log2 a = ?e - 1" by (simp add: floor_log2_def pq)
    with False lo show ?thesis by simp
  qed
qed

lemma floor_log2_unique:
  assumes "2 powi e \<le> a" and "a < 2 powi (e + 1)"
  shows "floor_log2 a = e"
proof -
  have "(0::rat) < 2 powi e" by simp
  with assms(1) have pos: "0 < a" by linarith
  from floor_log2_bounds [OF pos]
  have b: "2 powi (floor_log2 a) \<le> a" "a < 2 powi (floor_log2 a + 1)" by simp_all
  have "(2::rat) powi e < 2 powi (floor_log2 a + 1)" using assms(1) b(2) by linarith
  then have "e < floor_log2 a + 1" by (simp only: pow2_less_iff)
  moreover have "(2::rat) powi (floor_log2 a) < 2 powi (e + 1)" using assms(2) b(1) by linarith
  then have "floor_log2 a < e + 1" by (simp only: pow2_less_iff)
  ultimately show ?thesis by simp
qed

lemma round_pos_eval:
  assumes "2 powi e \<le> a" and "a < 2 powi (e + 1)" and "k = max (e - 52) (- 1074)"
    and "of_int n \<le> a / 2 powi k" and "a / 2 powi k < of_int n + 1"
  shows "round_pos a =
     of_int (if 1 / 2 < a / 2 powi k - of_int n \<or> (a / 2 powi k - of_int n = 1 / 2 \<and> odd n)
             then n + 1 else n) * 2 powi k"
proof -
  have fl: "\<lfloor>a / 2 powi k\<rfloor> = n"
    using assms(4,5) by (intro floor_unique) simp_all
  show ?thesis
    unfolding round_pos_def floor_log2_unique [OF assms(1,2)] assms(3) [symmetric] Let_def fl ..
qed

lemma round_pos_dyadic:
  assumes "0 < m" and "m < 2 ^ 53" and "- 1074 \<le> j"
  shows "round_pos (of_int m * 2 powi j) = of_int m * 2 powi j"
proof -
  let ?a = "of_int m * (2::rat) powi j"
  have apos: "0 < ?a" using assms(1) by simp
  let ?e = "floor_log2 ?a"
  from floor_log2_bounds [OF apos] have lo: "2 powi ?e \<le> ?a" by simp
  have "(of_int m :: rat) < of_int (2 ^ 53)" using assms(2) by (simp only: of_int_less_iff)
  then have "(of_int m :: rat) < 2 powi 53" by simp
  then have "?a < 2 powi 53 * 2 powi j" by (intro mult_strict_right_mono) simp_all
  then have "?a < 2 powi (53 + j)" by (simp add: power_int_add)
  with lo have "(2::rat) powi ?e < 2 powi (53 + j)" by linarith
  then have e: "?e < 53 + j" by (simp only: pow2_less_iff)
  define k where "k = max (?e - 52) (- 1074)"
  have kj: "k \<le> j" using e assms(3) by (simp add: k_def)
  have y: "?a / 2 powi k = of_int (m * 2 ^ nat (j - k))"
  proof -
    have "?a / 2 powi k = of_int m * 2 powi (j - k)" by (simp add: power_int_diff)
    also have "\<dots> = of_int m * 2 ^ nat (j - k)" using kj by (simp add: power_int_def)
    finally show ?thesis by simp
  qed
  from floor_log2_bounds [OF apos]
  have b1: "2 powi ?e \<le> ?a" and b2: "?a < 2 powi (?e + 1)" by simp_all
  have kd: "k = max (?e - 52) (- 1074)" by (simp add: k_def)
  have n1: "of_int (m * 2 ^ nat (j - k)) \<le> ?a / 2 powi k" unfolding y by simp
  have n2: "?a / 2 powi k < of_int (m * 2 ^ nat (j - k)) + 1" unfolding y by simp
  have "round_pos ?a = of_int (m * 2 ^ nat (j - k)) * 2 powi k"
    using round_pos_eval [OF b1 b2 kd n1 n2] unfolding y by simp
  also have "\<dots> = (?a / 2 powi k) * 2 powi k" unfolding y ..
  also have "\<dots> = ?a" by simp
  finally show ?thesis .
qed

lemma round64_dyadic:
  assumes "\<bar>m\<bar> < 2 ^ 53" and "- 1074 \<le> j" and "\<bar>of_int m * 2 powi j\<bar> < (2::rat) powi 1024"
  shows "round64 (of_int m * 2 powi j) = Fin (of_int m * 2 powi j)"
proof (cases "m = 0")
  case True
  then show ?thesis by (simp add: round64_def)
next
  case False
  let ?x = "of_int m * (2::rat) powi j"
  have abs: "\<bar>?x\<bar> = of_int \<bar>m\<bar> * 2 powi j" by (simp add: abs_mult)
  have "round_pos \<bar>?x\<bar> = \<bar>?x\<bar>"
    unfolding abs using False assms(1,2) by (intro round_pos_dyadic) simp_all
  moreover have "?x \<noteq> 0" using False by simp
  ultimately show ?thesis
    using assms(3) by (auto simp add: round64_def Let_def not_le)
qed

lemma round64_int:
  assumes "\<bar>n\<bar> \<le> 2 ^ 53"
  shows "round64 (of_int n) = Fin (of_int n)"
proof (cases "\<bar>n\<bar> = 2 ^ 53")
  case False
  with assms have lt: "\<bar>n\<bar> < 2 ^ 53" by simp
  have "\<bar>(of_int n :: rat)\<bar> = of_int \<bar>n\<bar>" by simp
  also have "\<dots> < of_int (2 ^ 53)" using lt by (simp only: of_int_less_iff)
  also have "\<dots> < (2::rat) powi 1024" by simp
  finally have "\<bar>of_int n * (2::rat) powi 0\<bar> < 2 powi 1024" by simp
  from round64_dyadic [OF lt _ this] show ?thesis by simp
next
  case True
  then consider "n = 2 ^ 53" | "n = - (2 ^ 53)" by (auto simp add: abs_if split: if_splits)
  then show ?thesis
  proof cases
    case 1
    have "round64 (of_int (2 ^ 52) * 2 powi 1) = Fin (of_int (2 ^ 52) * 2 powi 1)"
      by (intro round64_dyadic) simp_all
    with 1 show ?thesis by simp
  next
    case 2
    have "round64 (of_int (- (2 ^ 52)) * 2 powi 1) = Fin (of_int (- (2 ^ 52)) * 2 powi 1)"
      by (intro round64_dyadic) simp_all
    with 2 show ?thesis by simp
  qed
qed

lemma round64_one_twentieth:
  "round64 (1 / 20) = Fin (3602879701896397 / 72057594037927936)"
proof -
  have "round_pos (1 / 20) = 3602879701896397 / 72057594037927936"
    by (subst round_pos_eval [of "- 5" _ "- 57" 7205759403792793]) simp_all
  then show ?thesis by (simp add: round64_def)
qed

lemma round64_default_margin:
  "round64 (5 / 100) = Fin (3602879701896397 / 72057594037927936)"
  using round64_one_twentieth by simp

lemma round_pos_le:
  assumes "0 < a"
  shows "round_pos a \<le> 2 powi (floor_log2 a + 1)"
proof -
  let ?e = "floor_log2 a"
  define k where "k = max (?e - 52) (- 1074)"
  define y where "y = a / 2 powi k"
  define n where "n = \<lfloor>y\<rfloor>"
  define n' where "n' = (if 1 / 2 < y - of_int n \<or> (y - of_int n = 1 / 2 \<and> odd n) then n + 1 else n)"
  have rp: "round_pos a = of_int n' * 2 powi k"
    by (simp add: round_pos_def Let_def k_def y_def n_def n'_def)
  from floor_log2_bounds [OF assms] have hi: "a < 2 powi (?e + 1)" by simp
  have ypos: "0 < y" using assms by (simp add: y_def)
  have "y < 2 powi (?e + 1) / 2 powi k"
    unfolding y_def using hi by (intro divide_strict_right_mono) simp_all
  then have yT: "y < 2 powi (?e + 1 - k)" by (simp add: power_int_diff)
  have "of_int n' \<le> (2::rat) powi (?e + 1 - k)"
  proof (cases "0 \<le> ?e + 1 - k")
    case True
    then have T: "(2::rat) powi (?e + 1 - k) = of_int (2 ^ nat (?e + 1 - k))"
      by (simp add: power_int_def)
    from yT have "n < 2 ^ nat (?e + 1 - k)"
      unfolding T n_def by (simp only: floor_less_iff)
    then have "n' \<le> 2 ^ nat (?e + 1 - k)" by (simp add: n'_def)
    then show ?thesis unfolding T by (simp only: of_int_le_iff)
  next
    case False
    then have "?e + 1 - k \<le> - 1" by simp
    then have "(2::rat) powi (?e + 1 - k) \<le> 2 powi (- 1)" by (simp only: pow2_le_iff)
    with yT have yh: "y < 1 / 2" by (simp add: power_int_minus)
    with ypos have n0: "n = 0" unfolding n_def by (intro floor_unique) simp_all
    with yh have "n' = 0" by (simp add: n'_def)
    then show ?thesis by simp
  qed
  then have "of_int n' * 2 powi k \<le> (2::rat) powi (?e + 1 - k) * 2 powi k"
    by (intro mult_right_mono) simp_all
  also have "\<dots> = 2 powi (?e + 1)" by (simp flip: power_int_add)
  finally show ?thesis unfolding rp .
qed

lemma round_pos_nonneg: "0 < a \<Longrightarrow> 0 \<le> round_pos a"
proof -
  assume "0 < a"
  then have "0 \<le> a / 2 powi max (floor_log2 a - 52) (- 1074)" by simp
  then have "0 \<le> \<lfloor>a / 2 powi max (floor_log2 a - 52) (- 1074)\<rfloor>" by simp
  then show ?thesis by (simp add: round_pos_def Let_def)
qed

lemma round64_finite:
  assumes "\<bar>x\<bar> < 2 powi 1023"
  shows "\<exists>v. round64 x = Fin v \<and> \<bar>v\<bar> \<le> 2 * \<bar>x\<bar>"
proof (cases "x = 0")
  case True
  then show ?thesis by (simp add: round64_def)
next
  case False
  then have pos: "0 < \<bar>x\<bar>" by simp
  let ?e = "floor_log2 \<bar>x\<bar>"
  from floor_log2_bounds [OF pos] have lo: "2 powi ?e \<le> \<bar>x\<bar>" by simp
  have "round_pos \<bar>x\<bar> \<le> 2 powi (?e + 1)" by (rule round_pos_le [OF pos])
  also have "\<dots> = 2 * 2 powi ?e" by (simp add: power_int_add)
  also have "\<dots> \<le> 2 * \<bar>x\<bar>" using lo by simp
  finally have le: "round_pos \<bar>x\<bar> \<le> 2 * \<bar>x\<bar>" .
  have "2 * \<bar>x\<bar> < 2 * 2 powi 1023" using assms by simp
  also have "\<dots> = 2 powi 1024" by (simp add: power_int_add [of 2 1 1023, simplified])
  finally have "round_pos \<bar>x\<bar> < 2 powi 1024" using le by simp
  then have r64: "round64 x = Fin (if 0 < x then round_pos \<bar>x\<bar> else - round_pos \<bar>x\<bar>)"
    using False by (simp add: round64_def Let_def not_le)
  define r where "r = round_pos \<bar>x\<bar>"
  have "0 \<le> r" and "r \<le> 2 * \<bar>x\<bar>"
    using round_pos_nonneg [OF pos] le by (simp_all add: r_def)
  then have "\<bar>if 0 < x then r else - r\<bar> \<le> 2 * \<bar>x\<bar>" by (auto simp add: abs_if)
  with r64 show ?thesis unfolding r_def by blast
qed


section \<open>The boundary found in a sweep\<close>












section \<open>The liquidatability check\<close>

lemma BigInt_of_floor: "BigInt_of_number (Math_floor (Fin v)) = Inr \<lfloor>v\<rfloor>"
  by simp

lemma BigInt_of_floor_not_finite:
  "\<forall>v. x \<noteq> Fin v \<Longrightarrow> BigInt_of_number (Math_floor x) = Inl RangeError"
  by (cases x) simp_all

lemma checkLiquidatable_finite:
  assumes "gp (storage f) perp acct = (pos, mark)"
    and "js_mul (Number_of_bigint (mark * lotLNS pos)) m = Fin v"
  shows "fst (checkLiquidatable gp perp acct m f) =
           Inr \<lparr>liquidatable = (depositCNS pos + pnlCNS pos < \<lfloor>v\<rfloor>),
                equity = depositCNS pos + pnlCNS pos, maintenanceReq = \<lfloor>v\<rfloor>\<rparr>"
  using assms by (simp add: checkLiquidatable_def Let_def)

lemma checkLiquidatable_not_finite:
  assumes "gp (storage f) perp acct = (pos, mark)"
    and "\<forall>v. js_mul (Number_of_bigint (mark * lotLNS pos)) m \<noteq> Fin v"
  shows "fst (checkLiquidatable gp perp acct m f) = Inl RangeError"
  using assms BigInt_of_floor_not_finite [OF assms(2)]
  by (simp add: checkLiquidatable_def Let_def)

lemma requirement_single_rounding:
  assumes "\<bar>pv\<bar> \<le> 2 ^ 53"
  shows "js_mul (Number_of_bigint pv) (Fin q) = round64 (of_int pv * q)"
  using round64_int [OF assms] by (simp add: Number_of_bigint_def)

lemma requirement_finite:
  assumes "\<bar>q\<bar> \<le> 1" and "\<bar>pv\<bar> < 2 ^ 1022"
  shows "\<exists>v. js_mul (Number_of_bigint pv) (Fin q) = Fin v"
proof -
  have "\<bar>(of_int pv :: rat)\<bar> = of_int \<bar>pv\<bar>" by simp
  also have "\<dots> < of_int (2 ^ 1022)" using assms(2) by (simp only: of_int_less_iff)
  also have "\<dots> = (2::rat) powi 1022" by simp
  finally have b: "\<bar>(of_int pv :: rat)\<bar> < 2 powi 1022" .
  also have "\<dots> < (2::rat) powi 1023" by (simp only: pow2_less_iff)
  finally have "\<bar>(of_int pv :: rat)\<bar> < 2 powi 1023" .
  from round64_finite [OF this] obtain v1
    where v1: "round64 (of_int pv) = Fin v1" "\<bar>v1\<bar> \<le> 2 * \<bar>of_int pv\<bar>" by blast
  have "\<bar>v1 * q\<bar> = \<bar>v1\<bar> * \<bar>q\<bar>" by (simp add: abs_mult)
  also have "\<dots> \<le> \<bar>v1\<bar> * 1" using assms(1) by (intro mult_left_mono) simp_all
  also have "\<dots> \<le> 2 * \<bar>of_int pv\<bar>" using v1(2) by simp
  also have "\<dots> < 2 * 2 powi 1022" using b by simp
  also have "\<dots> = (2::rat) powi 1023" by (simp add: power_int_add [of 2 1 1022, simplified])
  finally have "\<bar>v1 * q\<bar> < 2 powi 1023" .
  from round64_finite [OF this] obtain v where "round64 (v1 * q) = Fin v" by blast
  then show ?thesis using v1(1) by (simp add: Number_of_bigint_def)
qed

lemma Number_example: "Number_of_bigint 1152921504606847104 = Fin 1152921504606846976"
proof -
  have "round_pos 1152921504606847104 = 1152921504606846976"
    by (subst round_pos_eval [of 60 _ 8 4503599627370496]) simp_all
  then show ?thesis by (simp add: round64_def Number_of_bigint_def)
qed

lemma product_example:
  "round64 57646075230342352 = Fin 57646075230342352"
proof -
  have "round_pos 57646075230342352 = 57646075230342352"
    by (subst round_pos_eval [of 55 _ 3 7205759403792794]) simp_all
  then show ?thesis by (simp add: round64_def)
qed

lemma round64_example_requirement:
  "round64 (95000000000 * (3602879701896397 / 72057594037927936)) = Fin 4750000000"
proof -
  have "round_pos (95000000000 * (3602879701896397 / 72057594037927936)) = 4750000000"
    by (subst round_pos_eval [of 32 _ "- 20" 4980736000000000]) simp_all
  then show ?thesis by (simp add: round64_def)
qed

text \<open>
  Claim C7, as the code has it. The equity \<open>depositCNS + pnlCNS\<close> and the position value
  \<open>markPrice \<sqdot> lotLNS\<close> are computed with arbitrary-precision integers. The maintenance
  requirement is not: the position value is converted to a double, multiplied by the
  margin (a double), floored and converted back to an integer. The check reports the
  position liquidatable iff the equity is strictly below this requirement, and throws a
  RangeError when the product is not finite. A position value of magnitude at most
  \<open>2\<^sup>5\<^sup>3\<close> is converted exactly, so that the requirement is the floor of the
  correctly rounded product; and for a margin of magnitude at most 1 and a position value
  below \<open>2\<^sup>1\<^sup>0\<^sup>2\<^sup>2\<close> the product is finite.
\<close>

theorem checkLiquidatable_requirement_in_binary64:
  assumes "gp (storage f) perp acct = (pos, mark)"
  shows "(\<forall>v. js_mul (Number_of_bigint (mark * lotLNS pos)) m = Fin v \<longrightarrow>
            fst (checkLiquidatable gp perp acct m f) =
              Inr \<lparr>liquidatable = (depositCNS pos + pnlCNS pos < \<lfloor>v\<rfloor>),
                   equity = depositCNS pos + pnlCNS pos, maintenanceReq = \<lfloor>v\<rfloor>\<rparr>) \<and>
         ((\<forall>v. js_mul (Number_of_bigint (mark * lotLNS pos)) m \<noteq> Fin v) \<longrightarrow>
            fst (checkLiquidatable gp perp acct m f) = Inl RangeError) \<and>
         (\<forall>q. m = Fin q \<and> \<bar>mark * lotLNS pos\<bar> \<le> 2 ^ 53 \<longrightarrow>
            js_mul (Number_of_bigint (mark * lotLNS pos)) m
              = round64 (of_int (mark * lotLNS pos) * q)) \<and>
         (\<forall>q. m = Fin q \<and> \<bar>q\<bar> \<le> 1 \<and> \<bar>mark * lotLNS pos\<bar> < 2 ^ 1022 \<longrightarrow>
            (\<exists>v. js_mul (Number_of_bigint (mark * lotLNS pos)) m = Fin v))"
proof (intro conjI allI impI)
  fix v
  assume "js_mul (Number_of_bigint (mark * lotLNS pos)) m = Fin v"
  from checkLiquidatable_finite [where gp = gp and f = f and perp = perp and acct = acct,
      OF assms this]
  show "fst (checkLiquidatable gp perp acct m f) =
      Inr \<lparr>liquidatable = (depositCNS pos + pnlCNS pos < \<lfloor>v\<rfloor>),
           equity = depositCNS pos + pnlCNS pos, maintenanceReq = \<lfloor>v\<rfloor>\<rparr>" .
next
  assume "\<forall>v. js_mul (Number_of_bigint (mark * lotLNS pos)) m \<noteq> Fin v"
  from checkLiquidatable_not_finite [where gp = gp and f = f and perp = perp and acct = acct,
      OF assms this]
  show "fst (checkLiquidatable gp perp acct m f) = Inl RangeError" .
next
  fix q
  assume "m = Fin q \<and> \<bar>mark * lotLNS pos\<bar> \<le> 2 ^ 53"
  then show "js_mul (Number_of_bigint (mark * lotLNS pos)) m
      = round64 (of_int (mark * lotLNS pos) * q)"
    using requirement_single_rounding [of "mark * lotLNS pos" q] by simp
next
  fix q
  assume "m = Fin q \<and> \<bar>q\<bar> \<le> 1 \<and> \<bar>mark * lotLNS pos\<bar> < 2 ^ 1022"
  then show "\<exists>v. js_mul (Number_of_bigint (mark * lotLNS pos)) m = Fin v"
    using requirement_finite [of q "mark * lotLNS pos"] by simp
qed

theorem checkLiquidatable_requirement_in_binary64_witness:
  "constantView 5000000000 (- 300000000) 100000 950000 (storage emptyFork) 16 100
     = (\<lparr>depositCNS = 5000000000, pnlCNS = - 300000000, lotLNS = 100000\<rparr>, 950000) \<and>
   \<bar>950000 * 100000 :: int\<bar> \<le> 2 ^ 53 \<and>
   \<bar>3602879701896397 / 72057594037927936 :: rat\<bar> \<le> 1 \<and>
   js_mul (Number_of_bigint (950000 * 100000)) (Fin (3602879701896397 / 72057594037927936))
     = Fin 4750000000 \<and>
   fst (checkLiquidatable (constantView 5000000000 (- 300000000) 100000 950000) 16 100
          (Fin (3602879701896397 / 72057594037927936)) emptyFork)
     = Inr \<lparr>liquidatable = True, equity = 4700000000, maintenanceReq = 4750000000\<rparr>"
proof -
  let ?pos = "\<lparr>depositCNS = 5000000000, pnlCNS = - 300000000, lotLNS = 100000\<rparr>"
  let ?m = "Fin (3602879701896397 / 72057594037927936)"
  have h: "constantView 5000000000 (- 300000000) 100000 950000 (storage emptyFork) 16 100
      = (?pos, 950000)"
    by (simp add: constantView_def)
  have small: "\<bar>950000 * lotLNS ?pos\<bar> \<le> 2 ^ 53" by simp
  note t = checkLiquidatable_requirement_in_binary64
      [where gp = "constantView 5000000000 (- 300000000) 100000 950000" and f = emptyFork
         and perp = 16 and acct = 100 and m = ?m, OF h]
  from t small have "js_mul (Number_of_bigint (950000 * lotLNS ?pos)) ?m
      = round64 (of_int (950000 * lotLNS ?pos) * (3602879701896397 / 72057594037927936))"
    by blast
  then have prod: "js_mul (Number_of_bigint (950000 * lotLNS ?pos)) ?m = Fin 4750000000"
    using round64_example_requirement by simp
  with t have "fst (checkLiquidatable (constantView 5000000000 (- 300000000) 100000 950000)
        16 100 ?m emptyFork)
      = Inr \<lparr>liquidatable = (depositCNS ?pos + pnlCNS ?pos < \<lfloor>4750000000 :: rat\<rfloor>),
             equity = depositCNS ?pos + pnlCNS ?pos, maintenanceReq = \<lfloor>4750000000 :: rat\<rfloor>\<rparr>"
    by blast
  then show ?thesis using h prod by simp
qed

text \<open>
  The claim as the specification states it fails where the conversion to a double loses
  bits. With the default margin, a mark price of \<open>2\<^sup>6\<^sup>0 + 128\<close>, one lot and an equity of
  57646075230342353, the requirement computed is 57646075230342352 and the position is
  reported as not liquidatable; in integer arithmetic (and in exact arithmetic) five
  hundredths of the position value exceed the equity.
\<close>

theorem checkLiquidatable_precision_counterexample:
  "fst (checkLiquidatable (constantView 57646075230342353 0 1 1152921504606847104) 16 100
          (maintenanceMargin DEFAULT_FORK_LIQUIDATION_CONFIG) emptyFork)
     = Inr \<lparr>liquidatable = False, equity = 57646075230342353,
            maintenanceReq = 57646075230342352\<rparr> \<and>
   (of_int (57646075230342353 + 0) :: rat) < (5 / 100) * of_int (1152921504606847104 * 1) \<and>
   (57646075230342353 + 0 :: int) < (1152921504606847104 * 1) * 5 div 100"
  by (simp add: checkLiquidatable_def Let_def constantView_def emptyFork_def
      DEFAULT_FORK_LIQUIDATION_CONFIG_def round64_one_twentieth Number_example product_example)

section \<open>The points of the coarse sweep\<close>

lemma setPrice_fields:
  "storage (setPrice lay target now f)
     = (storage f)(pf_slot (l_markPNS lay) := packedWord lay target now (storage f (pf_slot (l_markPNS lay))))"
  "snapshots (setPrice lay target now f) = snapshots f"
  "calls (setPrice lay target now f)
     = calls f @ [GetStorageAt (pf_slot (l_markPNS lay)),
                  SetStorageAt (pf_slot (l_markPNS lay))
                    (packedWord lay target now (storage f (pf_slot (l_markPNS lay))))]"
  by (simp_all add: setPrice_def getStorageAt_def setStorageAt_def packedWord_def Let_def
      split: option.splits)

lemma checkLiquidatable_fork:
  "storage (snd (checkLiquidatable gp perp acct m f)) = storage f"
  "snapshots (snd (checkLiquidatable gp perp acct m f)) = snapshots f"
  "calls (snd (checkLiquidatable gp perp acct m f)) = calls f @ [ReadGetPosition perp acct]"
  by (simp_all add: checkLiquidatable_def Let_def split: prod.splits sum.splits)

lemma checkLiquidatable_fst_cong:
  "storage f = storage g \<Longrightarrow>
     fst (checkLiquidatable gp perp acct m f) = fst (checkLiquidatable gp perp acct m g)"
  by (simp add: checkLiquidatable_def Let_def split: prod.splits sum.splits)

lemma sweepPoint_unfold:
  "sweepPoint ctx i f =
     (case fst (checkLiquidatable (sc_getPosition ctx) (sc_perpId ctx) (sc_accountId ctx)
                  (maintenanceMargin (sc_cfg ctx)) (pointFork ctx i f)) of
        Inl e \<Rightarrow> Inl e
      | Inr result \<Rightarrow>
          Inr \<lparr>price = pointPrice ctx i, pricePNS = sc_priceToPNS ctx (pointPrice ctx i),
               isLiquidatable = liquidatable result, reverted = False, revertReason = None,
               gasUsed = None\<rparr>,
      evmRevert (length (snapshots f))
        (snd (checkLiquidatable (sc_getPosition ctx) (sc_perpId ctx) (sc_accountId ctx)
                (maintenanceMargin (sc_cfg ctx)) (pointFork ctx i f))))"
  by (simp add: sweepPoint_def Let_def pointFork_def pointPrice_def evmSnapshot_def
      split: prod.splits sum.splits)

lemma pointFork_fields:
  "storage (pointFork ctx i f)
     = (storage f)(pf_slot (l_markPNS (sc_layout ctx)) := pointWord ctx i (storage f))"
  "snapshots (pointFork ctx i f) = snapshots f @ [storage f]"
  "calls (pointFork ctx i f)
     = calls f @ [EvmSnapshot, GetStorageAt (pf_slot (l_markPNS (sc_layout ctx))),
                  SetStorageAt (pf_slot (l_markPNS (sc_layout ctx))) (pointWord ctx i (storage f))]"
  by (simp_all add: pointFork_def setPrice_fields evmSnapshot_def pointWord_def)

lemma sweepPoint_fork:
  "storage (snd (sweepPoint ctx i f)) = storage f"
  "snapshots (snd (sweepPoint ctx i f)) = snapshots f"
  "calls (snd (sweepPoint ctx i f)) = calls f @ pointCalls ctx i (storage f) (length (snapshots f))"
  by (simp_all add: sweepPoint_unfold evmRevert_def checkLiquidatable_fork pointFork_fields
      pointCalls_def)

lemma sweepPoint_fst_cong:
  assumes "storage f = storage g"
  shows "fst (sweepPoint ctx i f) = fst (sweepPoint ctx i g)"
proof -
  have "storage (pointFork ctx i f) = storage (pointFork ctx i g)"
    using assms by (simp add: pointFork_fields)
  from checkLiquidatable_fst_cong [OF this]
  show ?thesis by (simp add: sweepPoint_unfold)
qed


lemma concat_map_upt_Suc:
  "concat (map g [0..<Suc n]) = g 0 @ concat (map (\<lambda>m. g (Suc m)) [0..<n])"
proof -
  have "[0..<Suc n] = 0 # map Suc [0..<n]"
    by (simp add: upt_conv_Cons map_Suc_upt del: upt_Suc)
  then show ?thesis by (simp add: comp_def del: upt_Suc)
qed

lemma sweepLoop_run:
  assumes "nat (priceSteps (sc_cfg ctx) + 1 - i) = n" and "i \<le> priceSteps (sc_cfg ctx) + 1"
    and "storage f = storage g" and "snapshots f = snapshots g"
    and "\<forall>j. i \<le> j \<and> j \<le> priceSteps (sc_cfg ctx) \<longrightarrow> (\<exists>pt. fst (sweepPoint ctx j g) = Inr pt)"
  shows "\<exists>new f'. sweepLoop ctx i acc f = (Inr (acc @ new), f') \<and> length new = n \<and>
           (\<forall>m < n. fst (sweepPoint ctx (i + int m) g) = Inr (new ! m)) \<and>
           storage f' = storage g \<and> snapshots f' = snapshots g \<and>
           calls f' = calls f @
             concat (map (\<lambda>m. pointCalls ctx (i + int m) (storage g) (length (snapshots g)))
                       [0..<n])"
  using assms
proof (induction n arbitrary: i acc f)
  case 0
  then have "\<not> i \<le> priceSteps (sc_cfg ctx)" by simp
  then have "sweepLoop ctx i acc f = (Inr acc, f)"
    by (simp add: sweepLoop.simps [of ctx i acc f])
  with "0.prems" show ?case by simp
next
  case (Suc n)
  let ?k = "priceSteps (sc_cfg ctx)"
  from Suc.prems(1) have ik: "i \<le> ?k" by simp
  with Suc.prems(5) obtain pt where pt: "fst (sweepPoint ctx i g) = Inr pt" by blast
  obtain res f1 where sp0: "sweepPoint ctx i f = (res, f1)" by (cases "sweepPoint ctx i f")
  have "fst (sweepPoint ctx i f) = Inr pt"
    using sweepPoint_fst_cong [OF Suc.prems(3)] pt by simp
  with sp0 have sp: "sweepPoint ctx i f = (Inr pt, f1)" by simp
  have step: "sweepLoop ctx i acc f = sweepLoop ctx (i + 1) (acc @ [pt]) f1"
    using ik sp by (simp add: sweepLoop.simps [of ctx i acc f])
  have "f1 = snd (sweepPoint ctx i f)" using sp by simp
  then have f1: "storage f1 = storage g" "snapshots f1 = snapshots g"
    "calls f1 = calls f @ pointCalls ctx i (storage g) (length (snapshots g))"
    using Suc.prems(3,4) by (simp_all add: sweepPoint_fork)
  have n: "nat (?k + 1 - (i + 1)) = n" using Suc.prems(1) by simp
  have le: "i + 1 \<le> ?k + 1" using ik by simp
  have later: "\<forall>j. i + 1 \<le> j \<and> j \<le> ?k \<longrightarrow> (\<exists>pt. fst (sweepPoint ctx j g) = Inr pt)"
    using Suc.prems(5) by simp
  from Suc.IH [OF n le f1(1,2) later, of "acc @ [pt]"]
  obtain new f' where r: "sweepLoop ctx (i + 1) (acc @ [pt]) f1 = (Inr ((acc @ [pt]) @ new), f')"
    "length new = n"
    "\<forall>m < n. fst (sweepPoint ctx (i + 1 + int m) g) = Inr (new ! m)"
    "storage f' = storage g" "snapshots f' = snapshots g"
    "calls f' = calls f1 @
       concat (map (\<lambda>m. pointCalls ctx (i + 1 + int m) (storage g) (length (snapshots g))) [0..<n])"
    by blast
  have nth: "\<forall>m < Suc n. fst (sweepPoint ctx (i + int m) g) = Inr ((pt # new) ! m)"
  proof (intro allI impI)
    fix m
    assume m: "m < Suc n"
    show "fst (sweepPoint ctx (i + int m) g) = Inr ((pt # new) ! m)"
    proof (cases m)
      case 0
      with pt show ?thesis by simp
    next
      case (Suc m')
      with m have "m' < n" by simp
      with r(3) have "fst (sweepPoint ctx (i + 1 + int m') g) = Inr (new ! m')" by blast
      moreover have "i + 1 + int m' = i + int m" using Suc by simp
      ultimately show ?thesis using Suc by simp
    qed
  qed
  have shift: "(\<lambda>m. pointCalls ctx (i + int (Suc m)) (storage g) (length (snapshots g)))
      = (\<lambda>m. pointCalls ctx (i + 1 + int m) (storage g) (length (snapshots g)))"
    by (rule ext) (simp add: add.commute add.left_commute)
  have cs: "calls f' = calls f @
      concat (map (\<lambda>m. pointCalls ctx (i + int m) (storage g) (length (snapshots g))) [0..<Suc n])"
    unfolding concat_map_upt_Suc [of "\<lambda>m. pointCalls ctx (i + int m) (storage g) (length (snapshots g))" n]
      shift
    using r(6) f1(3) by simp
  show ?case
    by (intro exI [of _ "pt # new"] exI [of _ f'])
       (use step r(1,2,4,5) nth cs in simp)
qed


lemma sweepPoint_point:
  assumes "fst (sweepPoint ctx i f) = Inr pt"
  shows "price pt = pointPrice ctx i" and "pricePNS pt = sc_priceToPNS ctx (pointPrice ctx i)"
    and "reverted pt = False"
  using assms by (auto simp add: sweepPoint_unfold split: sum.splits)

lemma sweepPoint_succeeds:
  assumes "maintenanceMargin (sc_cfg ctx) = Fin q" and "\<bar>q\<bar> \<le> 1"
    and "\<forall>st pos mark. sc_getPosition ctx st (sc_perpId ctx) (sc_accountId ctx) = (pos, mark)
           \<longrightarrow> \<bar>mark * lotLNS pos\<bar> < 2 ^ 1022"
  shows "\<exists>pt. fst (sweepPoint ctx i f) = Inr pt"
proof -
  let ?g = "pointFork ctx i f"
  obtain pos mark
    where gp: "sc_getPosition ctx (storage ?g) (sc_perpId ctx) (sc_accountId ctx) = (pos, mark)"
    by (cases "sc_getPosition ctx (storage ?g) (sc_perpId ctx) (sc_accountId ctx)")
  with assms(3) have "\<bar>mark * lotLNS pos\<bar> < 2 ^ 1022" by blast
  from requirement_finite [OF assms(2) this]
  obtain v where "js_mul (Number_of_bigint (mark * lotLNS pos)) (Fin q) = Fin v" by blast
  then have "js_mul (Number_of_bigint (mark * lotLNS pos)) (maintenanceMargin (sc_cfg ctx)) = Fin v"
    using assms(1) by simp
  from checkLiquidatable_finite
    [where gp = "sc_getPosition ctx" and f = ?g and perp = "sc_perpId ctx"
       and acct = "sc_accountId ctx", OF gp this]
  show ?thesis by (simp add: sweepPoint_unfold)
qed

lemma coarseSweep_run:
  assumes "0 \<le> priceSteps (sc_cfg ctx)"
    and "maintenanceMargin (sc_cfg ctx) = Fin q" and "\<bar>q\<bar> \<le> 1"
    and "\<forall>st pos mark. sc_getPosition ctx st (sc_perpId ctx) (sc_accountId ctx) = (pos, mark)
           \<longrightarrow> \<bar>mark * lotLNS pos\<bar> < 2 ^ 1022"
  shows "\<exists>points f'. coarseSweep ctx f = (Inr points, f') \<and>
           length points = nat (priceSteps (sc_cfg ctx)) + 1 \<and>
           (\<forall>n < length points.
              fst (sweepPoint ctx (int n) f) = Inr (points ! n) \<and>
              price (points ! n) = js_add (lowPrice ctx) (js_mul (sweepStep ctx) (Fin (of_nat n))) \<and>
              pricePNS (points ! n) = sc_priceToPNS ctx (price (points ! n))) \<and>
           storage f' = storage f \<and> snapshots f' = snapshots f \<and>
           calls f' = calls f @
             concat (map (\<lambda>n. [EvmSnapshot,
                                GetStorageAt (pf_slot (l_markPNS (sc_layout ctx))),
                                SetStorageAt (pf_slot (l_markPNS (sc_layout ctx)))
                                  (pointWord ctx (int n) (storage f)),
                                ReadGetPosition (sc_perpId ctx) (sc_accountId ctx),
                                EvmRevert (length (snapshots f))])
                       [0..<nat (priceSteps (sc_cfg ctx)) + 1])"
proof -
  let ?k = "priceSteps (sc_cfg ctx)"
  have n: "nat (?k + 1 - 0) = nat ?k + 1" using assms(1) by simp
  have le: "(0::int) \<le> ?k + 1" using assms(1) by simp
  have ok: "\<forall>j. 0 \<le> j \<and> j \<le> ?k \<longrightarrow> (\<exists>pt. fst (sweepPoint ctx j f) = Inr pt)"
    using sweepPoint_succeeds [OF assms(2,3,4)] by blast
  from sweepLoop_run [OF n le refl refl ok, of "[]"]
  obtain new f' where r: "sweepLoop ctx 0 [] f = (Inr ([] @ new), f')"
    "length new = nat ?k + 1"
    "\<forall>m < nat ?k + 1. fst (sweepPoint ctx (0 + int m) f) = Inr (new ! m)"
    "storage f' = storage f" "snapshots f' = snapshots f"
    "calls f' = calls f @
       concat (map (\<lambda>m. pointCalls ctx (0 + int m) (storage f) (length (snapshots f)))
                 [0..<nat ?k + 1])"
    by blast
  have pts: "\<forall>n < length new.
      fst (sweepPoint ctx (int n) f) = Inr (new ! n) \<and>
      price (new ! n) = js_add (lowPrice ctx) (js_mul (sweepStep ctx) (Fin (of_nat n))) \<and>
      pricePNS (new ! n) = sc_priceToPNS ctx (price (new ! n))"
  proof (intro allI impI)
    fix m
    assume "m < length new"
    with r(2,3) have e: "fst (sweepPoint ctx (int m) f) = Inr (new ! m)" by simp
    from sweepPoint_point(1,2) [OF e] e
    show "fst (sweepPoint ctx (int m) f) = Inr (new ! m) \<and>
      price (new ! m) = js_add (lowPrice ctx) (js_mul (sweepStep ctx) (Fin (of_nat m))) \<and>
      pricePNS (new ! m) = sc_priceToPNS ctx (price (new ! m))"
      by (simp add: pointPrice_def)
  qed
  show ?thesis
    by (intro exI [of _ new] exI [of _ f'])
       (use r(1,2,4,5,6) pts in \<open>simp add: coarseSweep_def pointCalls_def\<close>)
qed

lemma exampleView_bound:
  "\<forall>st pos mark. exampleView st perp acct = (pos, mark) \<longrightarrow> \<bar>mark * lotLNS pos\<bar> < 2 ^ 1022"
proof (intro allI impI)
  fix st pos mark
  assume "exampleView st perp acct = (pos, mark)"
  then have m: "mark = extractField (st 5) 0 32" and l: "lotLNS pos = 1"
    by (auto simp add: exampleView_def Let_def)
  have b: "bit (extractField (st 5) 0 32) n = (n < 32 \<and> bit (st 5) n)" for n
    using bit_extractField [of "st 5" 0 32 n] by simp
  have "extractField (st 5) 0 32 = take_bit 32 (st 5)"
    by (rule bit_eqI) (simp add: b bit_simps)
  then have "mark = take_bit 32 (st 5)" using m by simp
  then have "0 \<le> mark" and "mark < 2 ^ 32"
    using take_bit_int_less_exp [of 32 "st 5"] by simp_all
  then have "\<bar>mark\<bar> < 2 ^ 32" by simp
  also have "(2::int) ^ 32 < 2 ^ 1022" by simp
  finally show "\<bar>mark * lotLNS pos\<bar> < 2 ^ 1022" using l by simp
qed



text \<open>
  The sweep of the example with two steps, evaluated: three points, at 50, 100 and 150;
  the position is liquidatable at the first two.
\<close>

lemma round64_half: "round64 (1 / 2) = Fin (1 / 2)"
  using round64_dyadic [of 1 "- 1"] by simp

lemma round64_small_ints:
  "round64 50 = Fin 50" "round64 100 = Fin 100" "round64 150 = Fin 150"
  "round64 250 = Fin 250" "round64 500 = Fin 500" "round64 750 = Fin 750"
  "round64 1000 = Fin 1000" "round64 1500 = Fin 1500"
  using round64_int [of 50] round64_int [of 100] round64_int [of 150] round64_int [of 250]
    round64_int [of 500] round64_int [of 750] round64_int [of 1000] round64_int [of 1500]
  by simp_all

lemma round64_three_halves: "round64 (3 / 2) = Fin (3 / 2)"
  using round64_dyadic [of 3 "- 1"] by simp

lemma smallSweep_cfg:
  "priceSteps (sc_cfg smallSweep) = 2" "priceRangePct (sc_cfg smallSweep) = Fin 50"
  "maintenanceMargin (sc_cfg smallSweep) = Fin (1 / 2)" "sc_currentMarkPrice smallSweep = Fin 100"
  "sc_layout smallSweep = exampleLayout" "sc_priceToPNS smallSweep = examplePriceToPNS"
  "sc_getPosition smallSweep = exampleView" "sc_perpId smallSweep = 16"
  "sc_accountId smallSweep = 100"
  by (simp_all add: smallSweep_def defaultSweep_def DEFAULT_FORK_LIQUIDATION_CONFIG_def)

lemma smallSweep_interval:
  "lowPrice smallSweep = Fin 50" "highPrice smallSweep = Fin 150" "sweepStep smallSweep = Fin 50"
proof -
  show l: "lowPrice smallSweep = Fin 50"
    by (simp add: lowPrice_def smallSweep_cfg js_sub_def round64_half round64_small_ints)
  show h: "highPrice smallSweep = Fin 150"
    by (simp add: highPrice_def smallSweep_cfg round64_half round64_three_halves round64_small_ints)
  show "sweepStep smallSweep = Fin 50"
    by (simp add: sweepStep_def l h smallSweep_cfg js_sub_def round64_small_ints)
qed

lemma smallSweep_prices:
  "pointPrice smallSweep 0 = Fin 50" "pointPrice smallSweep 1 = Fin 100"
  "pointPrice smallSweep 2 = Fin 150"
  using round64_int [of 0]
  by (simp_all add: pointPrice_def smallSweep_interval round64_small_ints)

lemma exampleView_reads_mark:
  assumes "0 \<le> p" and "p < 2 ^ 32"
  shows "exampleView ((st)(5 := packedWord exampleLayout p now w)) perp acct =
           (\<lparr>depositCNS = 300, pnlCNS = p - 1000, lotLNS = 1\<rparr>, p)"
proof -
  have b: "bit (extractField (packedWord exampleLayout p now w) 0 32) n = (n < 32 \<and> bit p n)" for n
    using bit_extractField [of "packedWord exampleLayout p now w" 0 32 n]
      bit_writeField [of _ 0 32] bit_writeField [of _ 32 32] bit_writeField [of _ 64 32]
    by (auto simp add: packedWord_def exampleLayout_def Let_def)
  have "extractField (packedWord exampleLayout p now w) 0 32 = take_bit 32 p"
    by (rule bit_eqI) (simp add: b bit_simps)
  also have "\<dots> = p" using assms by (simp add: take_bit_int_eq_self)
  finally show ?thesis by (simp add: exampleView_def Let_def)
qed

lemma examplePriceToPNS_int: "examplePriceToPNS (Fin (of_int n)) = n * 10"
proof -
  have "\<lfloor>of_int (n * 10) + 1 / 2 :: rat\<rfloor> = n * 10" by (rule floor_unique) simp_all
  then show ?thesis by (simp add: examplePriceToPNS_def)
qed

lemma examplePriceToPNS_values:
  "examplePriceToPNS (Fin 50) = 500" "examplePriceToPNS (Fin 100) = 1000"
  "examplePriceToPNS (Fin 150) = 1500"
  using examplePriceToPNS_int [of 50] examplePriceToPNS_int [of 100]
    examplePriceToPNS_int [of 150]
  by simp_all

lemma smallSweep_point:
  assumes "pointPrice smallSweep i = Fin v" and "examplePriceToPNS (Fin v) = p"
    and "0 \<le> p" and "p < 2 ^ 32"
    and "round64 (of_int p) = Fin (of_int p)"
    and "round64 (of_int p * (1 / 2)) = Fin r"
  shows "fst (sweepPoint smallSweep i f) =
           Inr \<lparr>price = Fin v, pricePNS = p, isLiquidatable = (p - 700 < \<lfloor>r\<rfloor>),
                reverted = False, revertReason = None, gasUsed = None\<rparr>"
proof -
  have pns: "examplePriceToPNS (pointPrice smallSweep i) = p"
    by (simp add: assms(1,2))
  have gp: "sc_getPosition smallSweep (storage (pointFork smallSweep i f)) 16 100 =
      (\<lparr>depositCNS = 300, pnlCNS = p - 1000, lotLNS = 1\<rparr>, p)"
    using exampleView_reads_mark [OF assms(3,4), of "storage f" "sc_clock smallSweep i" "storage f 5" 16 100]
    by (simp add: pointFork_fields pointWord_def smallSweep_cfg pns exampleLayout_def)
  have m: "js_mul (Number_of_bigint (p * lotLNS \<lparr>depositCNS = 300, pnlCNS = p - 1000, lotLNS = 1\<rparr>))
             (Fin (1 / 2)) = Fin r"
    using assms(5,6) by (simp add: Number_of_bigint_def)
  from checkLiquidatable_finite [where gp = "sc_getPosition smallSweep"
      and f = "pointFork smallSweep i f" and perp = 16 and acct = 100, OF gp m]
  show ?thesis
    by (simp add: sweepPoint_unfold smallSweep_cfg assms(1,2))
qed

lemma smallSweep_points:
  "fst (sweepPoint smallSweep 0 f) =
     Inr \<lparr>price = Fin 50, pricePNS = 500, isLiquidatable = True,
          reverted = False, revertReason = None, gasUsed = None\<rparr>"
  "fst (sweepPoint smallSweep 1 f) =
     Inr \<lparr>price = Fin 100, pricePNS = 1000, isLiquidatable = True,
          reverted = False, revertReason = None, gasUsed = None\<rparr>"
  "fst (sweepPoint smallSweep 2 f) =
     Inr \<lparr>price = Fin 150, pricePNS = 1500, isLiquidatable = False,
          reverted = False, revertReason = None, gasUsed = None\<rparr>"
  using smallSweep_point [of 0 50 500 250 f] smallSweep_point [of 1 100 1000 500 f]
    smallSweep_point [of 2 150 1500 750 f]
  by (simp_all add: smallSweep_prices round64_small_ints examplePriceToPNS_values)

lemma smallSweep_result:
  "fst (coarseSweep smallSweep emptyFork) =
     Inr [\<lparr>price = Fin 50, pricePNS = 500, isLiquidatable = True,
           reverted = False, revertReason = None, gasUsed = None\<rparr>,
          \<lparr>price = Fin 100, pricePNS = 1000, isLiquidatable = True,
           reverted = False, revertReason = None, gasUsed = None\<rparr>,
          \<lparr>price = Fin 150, pricePNS = 1500, isLiquidatable = False,
           reverted = False, revertReason = None, gasUsed = None\<rparr>]"
proof -
  have q: "\<bar>1 / 2 :: rat\<bar> \<le> 1" by simp
  have v: "\<forall>st pos mark.
      sc_getPosition smallSweep st (sc_perpId smallSweep) (sc_accountId smallSweep) = (pos, mark)
      \<longrightarrow> \<bar>mark * lotLNS pos\<bar> < 2 ^ 1022"
    using exampleView_bound by (simp add: smallSweep_cfg)
  have k: "0 \<le> priceSteps (sc_cfg smallSweep)" by (simp add: smallSweep_cfg)
  from coarseSweep_run [OF k smallSweep_cfg(3) q v, of emptyFork]
  obtain points f' where r: "coarseSweep smallSweep emptyFork = (Inr points, f')"
    "length points = nat (priceSteps (sc_cfg smallSweep)) + 1"
    "\<forall>n < length points. fst (sweepPoint smallSweep (int n) emptyFork) = Inr (points ! n)"
    by blast
  have l: "length points = 3" using r(2) by (simp add: smallSweep_cfg)
  have "fst (sweepPoint smallSweep (int 0) emptyFork) = Inr (points ! 0)"
    "fst (sweepPoint smallSweep (int 1) emptyFork) = Inr (points ! 1)"
    "fst (sweepPoint smallSweep (int 2) emptyFork) = Inr (points ! 2)"
    using r(3) [rule_format, of 0] r(3) [rule_format, of 1] r(3) [rule_format, of 2] l
    by simp_all
  with smallSweep_points [of emptyFork]
  have "points ! 0 = \<lparr>price = Fin 50, pricePNS = 500, isLiquidatable = True,
           reverted = False, revertReason = None, gasUsed = None\<rparr>"
    "points ! 1 = \<lparr>price = Fin 100, pricePNS = 1000, isLiquidatable = True,
           reverted = False, revertReason = None, gasUsed = None\<rparr>"
    "points ! 2 = \<lparr>price = Fin 150, pricePNS = 1500, isLiquidatable = False,
           reverted = False, revertReason = None, gasUsed = None\<rparr>"
    by simp_all
  with l have "points = [\<lparr>price = Fin 50, pricePNS = 500, isLiquidatable = True,
           reverted = False, revertReason = None, gasUsed = None\<rparr>,
          \<lparr>price = Fin 100, pricePNS = 1000, isLiquidatable = True,
           reverted = False, revertReason = None, gasUsed = None\<rparr>,
          \<lparr>price = Fin 150, pricePNS = 1500, isLiquidatable = False,
           reverted = False, revertReason = None, gasUsed = None\<rparr>]"
    by (intro nth_equalityI) (auto simp add: nth_Cons' less_Suc_eq numeral_3_eq_3 numeral_2_eq_2)
  with r(1) show ?thesis by simp
qed





section \<open>Orders and positions in the state tracker\<close>

lemma applyOrder_other: "k \<noteq> o_oid x \<Longrightarrow> applyOrder x m k = m k"
  by (simp add: applyOrder_def)

lemma applyOrder_same:
  "applyOrder x m (o_oid x) =
     (if o_r x \<noteq> Some True \<and> (o_st x = 2 \<or> o_st x = 3) then Some x else None)"
  by (simp add: applyOrder_def)

lemma applyPosition_other: "k \<noteq> pos_pid x \<Longrightarrow> applyPosition x m k = m k"
  by (simp add: applyPosition_def)

lemma applyPosition_same:
  "applyPosition x m (pos_pid x) = (if pos_st x = 1 then Some x else None)"
  by (simp add: applyPosition_def)

lemma fold_applyOrder_absent:
  assumes "i < length orders"
    and "o_r (orders ! i) = Some True \<or> (o_st (orders ! i) \<noteq> 2 \<and> o_st (orders ! i) \<noteq> 3)"
    and "\<forall>j. i < j \<and> j < length orders \<and> o_oid (orders ! j) = o_oid (orders ! i) \<longrightarrow>
           o_r (orders ! j) = Some True \<or> (o_st (orders ! j) \<noteq> 2 \<and> o_st (orders ! j) \<noteq> 3)"
  shows "fold applyOrder orders m (o_oid (orders ! i)) = None"
  using assms
proof (induction orders rule: rev_induct)
  case Nil
  then show ?case by simp
next
  case (snoc x xs)
  show ?case
  proof (cases "i < length xs")
    case False
    with snoc.prems(1) have i: "i = length xs" by simp
    with snoc.prems(2) show ?thesis by (auto simp add: applyOrder_same)
  next
    case True
    then have at_i: "(xs @ [x]) ! i = xs ! i" by (simp add: nth_append)
    show ?thesis
    proof (cases "o_oid x = o_oid (xs ! i)")
      case same: True
      from snoc.prems(3) [rule_format, of "length xs"] True same at_i
      have "o_r x = Some True \<or> (o_st x \<noteq> 2 \<and> o_st x \<noteq> 3)" by simp
      with same at_i show ?thesis
        using applyOrder_same [of x "fold applyOrder xs m"] by auto
    next
      case False
      have "fold applyOrder xs m (o_oid (xs ! i)) = None"
      proof (rule snoc.IH [OF True])
        from snoc.prems(2) at_i
        show "o_r (xs ! i) = Some True \<or> (o_st (xs ! i) \<noteq> 2 \<and> o_st (xs ! i) \<noteq> 3)" by simp
        show "\<forall>j. i < j \<and> j < length xs \<and> o_oid (xs ! j) = o_oid (xs ! i) \<longrightarrow>
           o_r (xs ! j) = Some True \<or> (o_st (xs ! j) \<noteq> 2 \<and> o_st (xs ! j) \<noteq> 3)"
        proof (intro allI impI)
          fix j
          assume j: "i < j \<and> j < length xs \<and> o_oid (xs ! j) = o_oid (xs ! i)"
          then have "(xs @ [x]) ! j = xs ! j" by (simp add: nth_append)
          with snoc.prems(3) [rule_format, of j] j at_i
          show "o_r (xs ! j) = Some True \<or> (o_st (xs ! j) \<noteq> 2 \<and> o_st (xs ! j) \<noteq> 3)" by simp
        qed
      qed
      with False at_i show ?thesis by (simp add: applyOrder_other)
    qed
  qed
qed

lemma fold_applyPosition_absent:
  assumes "i < length positions"
    and "pos_st (positions ! i) \<noteq> 1"
    and "\<forall>j. i < j \<and> j < length positions \<and> pos_pid (positions ! j) = pos_pid (positions ! i) \<longrightarrow>
           pos_st (positions ! j) \<noteq> 1"
  shows "fold applyPosition positions m (pos_pid (positions ! i)) = None"
  using assms
proof (induction positions rule: rev_induct)
  case Nil
  then show ?case by simp
next
  case (snoc x xs)
  show ?case
  proof (cases "i < length xs")
    case False
    with snoc.prems(1) have i: "i = length xs" by simp
    with snoc.prems(2) show ?thesis by (auto simp add: applyPosition_same)
  next
    case True
    then have at_i: "(xs @ [x]) ! i = xs ! i" by (simp add: nth_append)
    show ?thesis
    proof (cases "pos_pid x = pos_pid (xs ! i)")
      case same: True
      from snoc.prems(3) [rule_format, of "length xs"] True same at_i
      have "pos_st x \<noteq> 1" by simp
      with same at_i show ?thesis
        using applyPosition_same [of x "fold applyPosition xs m"] by auto
    next
      case False
      have "fold applyPosition xs m (pos_pid (xs ! i)) = None"
      proof (rule snoc.IH [OF True])
        from snoc.prems(2) at_i show "pos_st (xs ! i) \<noteq> 1" by simp
        show "\<forall>j. i < j \<and> j < length xs \<and> pos_pid (xs ! j) = pos_pid (xs ! i) \<longrightarrow>
           pos_st (xs ! j) \<noteq> 1"
        proof (intro allI impI)
          fix j
          assume j: "i < j \<and> j < length xs \<and> pos_pid (xs ! j) = pos_pid (xs ! i)"
          then have "(xs @ [x]) ! j = xs ! j" by (simp add: nth_append)
          with snoc.prems(3) [rule_format, of j] j at_i
          show "pos_st (xs ! j) \<noteq> 1" by simp
        qed
      qed
      with False at_i show ?thesis by (simp add: applyPosition_other)
    qed
  qed
qed

text \<open>
  Claim C8, as the code has it. The entries of an update are applied in order, so the
  last entry of an id decides. For every orders update, every entry with the remove flag
  set or with a status outside Open and PartiallyFilled has its order id absent from the
  open-orders map after the update, unless a later entry of the same update carries the
  same id with the flag unset and status Open or PartiallyFilled. For every positions
  update, every entry with a status other than Open has its position id absent from the
  positions map after the update, unless a later entry of the same update carries the
  same id with status Open.
\<close>

theorem tracker_removed_unless_readded:
  "(\<forall>i. i < length orders \<and>
        (o_r (orders ! i) = Some True \<or> (o_st (orders ! i) \<noteq> 2 \<and> o_st (orders ! i) \<noteq> 3)) \<and>
        (\<forall>j. i < j \<and> j < length orders \<and> o_oid (orders ! j) = o_oid (orders ! i) \<longrightarrow>
             o_r (orders ! j) = Some True \<or> (o_st (orders ! j) \<noteq> 2 \<and> o_st (orders ! j) \<noteq> 3))
      \<longrightarrow> apiOrders (fst (ordersHandler now orders rs)) (o_oid (orders ! i)) = None) \<and>
   (\<forall>i. i < length positions \<and> pos_st (positions ! i) \<noteq> 1 \<and>
        (\<forall>j. i < j \<and> j < length positions \<and> pos_pid (positions ! j) = pos_pid (positions ! i) \<longrightarrow>
             pos_st (positions ! j) \<noteq> 1)
      \<longrightarrow> apiPositions (fst (positionsHandler now positions rs)) (pos_pid (positions ! i)) = None)"
proof (intro conjI allI impI)
  fix i
  assume "i < length orders \<and>
        (o_r (orders ! i) = Some True \<or> (o_st (orders ! i) \<noteq> 2 \<and> o_st (orders ! i) \<noteq> 3)) \<and>
        (\<forall>j. i < j \<and> j < length orders \<and> o_oid (orders ! j) = o_oid (orders ! i) \<longrightarrow>
             o_r (orders ! j) = Some True \<or> (o_st (orders ! j) \<noteq> 2 \<and> o_st (orders ! j) \<noteq> 3))"
  then have "fold applyOrder orders (apiOrders rs) (o_oid (orders ! i)) = None"
    by (intro fold_applyOrder_absent) simp_all
  then show "apiOrders (fst (ordersHandler now orders rs)) (o_oid (orders ! i)) = None"
    by (simp add: ordersHandler_def Let_def)
next
  fix i
  assume "i < length positions \<and> pos_st (positions ! i) \<noteq> 1 \<and>
        (\<forall>j. i < j \<and> j < length positions \<and> pos_pid (positions ! j) = pos_pid (positions ! i) \<longrightarrow>
             pos_st (positions ! j) \<noteq> 1)"
  then have "fold applyPosition positions (apiPositions rs) (pos_pid (positions ! i)) = None"
    by (intro fold_applyPosition_absent) simp_all
  then show "apiPositions (fst (positionsHandler now positions rs)) (pos_pid (positions ! i)) = None"
    by (simp add: positionsHandler_def Let_def)
qed

theorem tracker_removed_unless_readded_witness:
  "(1::nat) < length [mkOrder 7 2 None, mkOrder 7 5 None, mkOrder 8 2 None] \<and>
   o_st ([mkOrder 7 2 None, mkOrder 7 5 None, mkOrder 8 2 None] ! 1) \<noteq> 2 \<and>
   o_st ([mkOrder 7 2 None, mkOrder 7 5 None, mkOrder 8 2 None] ! 1) \<noteq> 3 \<and>
   o_oid ([mkOrder 7 2 None, mkOrder 7 5 None, mkOrder 8 2 None] ! 2)
     \<noteq> o_oid ([mkOrder 7 2 None, mkOrder 7 5 None, mkOrder 8 2 None] ! 1) \<and>
   apiOrders (fst (ordersHandler 1700000000000
       [mkOrder 7 2 None, mkOrder 7 5 None, mkOrder 8 2 None] initialRealtimeState)) 7 = None \<and>
   pos_st ([mkPosition 3 1, mkPosition 3 2] ! 1) \<noteq> 1 \<and>
   apiPositions (fst (positionsHandler 1700000000000
       [mkPosition 3 1, mkPosition 3 2] initialRealtimeState)) 3 = None"
proof -
  let ?os = "[mkOrder 7 2 None, mkOrder 7 5 None, mkOrder 8 2 None]"
  let ?ps = "[mkPosition 3 1, mkPosition 3 2]"
  have o1: "(1::nat) < length ?os" by simp
  have o2: "o_st (?os ! 1) \<noteq> 2 \<and> o_st (?os ! 1) \<noteq> 3" by (simp add: mkOrder_def)
  have o3: "o_oid (?os ! 2) \<noteq> o_oid (?os ! 1)" by (simp add: mkOrder_def)
  have o4: "\<forall>j. 1 < j \<and> j < length ?os \<and> o_oid (?os ! j) = o_oid (?os ! 1) \<longrightarrow>
      o_r (?os ! j) = Some True \<or> (o_st (?os ! j) \<noteq> 2 \<and> o_st (?os ! j) \<noteq> 3)"
  proof (intro allI impI)
    fix j :: nat
    assume j: "1 < j \<and> j < length ?os \<and> o_oid (?os ! j) = o_oid (?os ! 1)"
    then have "j = 2" by simp
    with j o3 show "o_r (?os ! j) = Some True \<or> (o_st (?os ! j) \<noteq> 2 \<and> o_st (?os ! j) \<noteq> 3)"
      by simp
  qed
  have p1: "(1::nat) < length ?ps" by simp
  have p2: "pos_st (?ps ! 1) \<noteq> 1" by (simp add: mkPosition_def)
  have p3: "\<forall>j. 1 < j \<and> j < length ?ps \<and> pos_pid (?ps ! j) = pos_pid (?ps ! 1) \<longrightarrow>
      pos_st (?ps ! j) \<noteq> 1"
    by simp
  have ids: "o_oid (?os ! 1) = 7" "pos_pid (?ps ! 1) = 3"
    by (simp_all add: mkOrder_def mkPosition_def)
  from tracker_removed_unless_readded
    [of ?os 1700000000000 initialRealtimeState ?ps, THEN conjunct1, rule_format, of 1]
    o1 o2 o4
  have "apiOrders (fst (ordersHandler 1700000000000 ?os initialRealtimeState)) (o_oid (?os ! 1)) = None"
    by blast
  moreover from tracker_removed_unless_readded
    [of ?os 1700000000000 initialRealtimeState ?ps, THEN conjunct2, rule_format, of 1]
    p1 p2 p3
  have "apiPositions (fst (positionsHandler 1700000000000 ?ps initialRealtimeState)) (pos_pid (?ps ! 1)) = None"
    by blast
  ultimately show ?thesis using o1 o2 o3 p2 unfolding ids by simp
qed

text \<open>
  The claim as the specification states it fails on an update that carries two states of
  one order: a Pending entry followed by an Open entry of the same id leaves the id in
  the map, although the first entry has a status outside Open and PartiallyFilled.
\<close>

theorem tracker_pending_then_open_counterexample:
  "[mkOrder 7 1 None, mkOrder 7 2 None] ! 0 = mkOrder 7 1 None \<and>
   o_st (mkOrder 7 1 None) \<noteq> 2 \<and> o_st (mkOrder 7 1 None) \<noteq> 3 \<and>
   apiOrders (fst (ordersHandler 1700000000000 [mkOrder 7 1 None, mkOrder 7 2 None]
       initialRealtimeState)) (o_oid (mkOrder 7 1 None)) = Some (mkOrder 7 2 None)"
  by (simp add: ordersHandler_def initialRealtimeState_def applyOrder_def mkOrder_def)

section \<open>Sending on the WebSocket\<close>

lemma send_not_open: "ws st \<noteq> Some OPEN \<Longrightarrow> send msg st = st"
  by (simp add: send_def)

lemma send_open: "ws st = Some OPEN \<Longrightarrow> send msg st = st\<lparr>sent := sent st @ [msg]\<rparr>"
  by (simp add: send_def)

lemma submitOrder_not_open:
  "ws st \<noteq> Some OPEN \<Longrightarrow> snd (submitOrder now request st) = st"
  by (simp add: submitOrder_def Let_def send_not_open)

text \<open>
  Claim C10. Whenever the socket is not in the OPEN state (or there is no socket), every
  outbound send is discarded: subscription requests and the order submissions through
  \<open>submitOrder\<close>, \<open>openLong\<close>, \<open>openShort\<close>, \<open>closeLong\<close>, \<open>closeShort\<close> and
  \<open>cancelOrder\<close> leave the client exactly as it was, so that no frame is transmitted and
  nothing is kept for a later transmission; no error is raised, and \<open>submitOrder\<close> still
  returns its request id.
\<close>

theorem send_dropped_when_not_open:
  assumes "ws st \<noteq> Some OPEN"
  shows "send msg st = st \<and> subscribe stream st = st \<and>
         submitOrder now request st =
           ((case obj_get request ''rq'' of
               Some (JNum n) \<Rightarrow> if n \<noteq> 0 then n else now
             | _ \<Rightarrow> now), st) \<and>
         openLong now oparams st = (now, st) \<and>
         openShort now oparams st = (now, st) \<and>
         closeLong now cparams st = (now, st) \<and>
         closeShort now cparams st = (now, st) \<and>
         cancelOrder now mktId accId orderId lastBlk st = (now, st)"
  using assms
  by (simp add: subscribe_def submitOrder_def Let_def send_not_open obj_get_def
      openLong_def openShort_def closeLong_def closeShort_def cancelOrder_def)

theorem send_dropped_when_not_open_witness:
  "ws (newWsClient ''wss://testnet.perpl.xyz'' 10143) \<noteq> Some OPEN \<and>
   subscribe ''order-book@16'' (newWsClient ''wss://testnet.perpl.xyz'' 10143)
     = newWsClient ''wss://testnet.perpl.xyz'' 10143 \<and>
   submitOrder 1700000000000 [(''rq'', JNum 12345), (''mkt'', JNum 16)]
       (newWsClient ''wss://testnet.perpl.xyz'' 10143)
     = (12345, newWsClient ''wss://testnet.perpl.xyz'' 10143) \<and>
   cancelOrder 1700000000000 16 100 7 50000 (newWsClient ''wss://testnet.perpl.xyz'' 10143)
     = (1700000000000, newWsClient ''wss://testnet.perpl.xyz'' 10143)"
proof -
  have h: "ws (newWsClient ''wss://testnet.perpl.xyz'' 10143) \<noteq> Some OPEN"
    by (simp add: newWsClient_def)
  have rq: "obj_get [(''rq'', JNum 12345), (''mkt'', JNum 16)] ''rq'' = Some (JNum 12345)"
    by (simp add: obj_get_def)
  from send_dropped_when_not_open [OF h, of _ "''order-book@16''" 1700000000000
      "[(''rq'', JNum 12345), (''mkt'', JNum 16)]" _ _ 16 100 7 50000] h rq
  show ?thesis by simp
qed

section \<open>The frames of an order\<close>

lemma marketDataClient_open: "ws marketDataClient = Some OPEN"
  by (simp add: marketDataClient_def connectMarketData_def connect_def on_open_def emit_def
      connect_begin_def Let_def)

text \<open>
  Claim C9. On an open socket, \<open>openLong\<close> with market 16, account 100, size 1000, no
  price, leverage 1000 and last block 50000 transmits one frame with \<open>mt\<close> 22, \<open>t\<close> 1 and
  \<open>fl\<close> 4 (immediate-or-cancel, a market order); with the price 50000 it transmits one
  frame with \<open>t\<close> 1, \<open>fl\<close> 0 and \<open>p\<close> 50000 (good-till-cancelled, a limit order).
\<close>

theorem openLong_frames:
  assumes "ws st = Some OPEN"
  shows "openLong now \<lparr>op_marketId = 16, op_accountId = 100, op_size = 1000, op_price = None,
             op_leverage = 1000, op_lastBlock = 50000, op_flags = None\<rparr> st
           = (now, st\<lparr>sent := sent st @
                [JObj [(''mt'', JNum 22), (''rq'', JNum now), (''mkt'', JNum 16),
                       (''acc'', JNum 100), (''t'', JNum 1), (''p'', JNum 0),
                       (''s'', JNum 1000), (''fl'', JNum 4), (''lv'', JNum 1000),
                       (''lb'', JNum 50000)]]\<rparr>) \<and>
         openLong now \<lparr>op_marketId = 16, op_accountId = 100, op_size = 1000, op_price = Some 50000,
             op_leverage = 1000, op_lastBlock = 50000, op_flags = None\<rparr> st
           = (now, st\<lparr>sent := sent st @
                [JObj [(''mt'', JNum 22), (''rq'', JNum now), (''mkt'', JNum 16),
                       (''acc'', JNum 100), (''t'', JNum 1), (''p'', JNum 50000),
                       (''s'', JNum 1000), (''fl'', JNum 0), (''lv'', JNum 1000),
                       (''lb'', JNum 50000)]]\<rparr>)"
  using assms
  by (simp add: openLong_def submitOrder_def Let_def send_open obj_get_def obj_spread_def
      priceOrZero_def flagsOrDefault_def)

theorem openLong_frames_witness:
  "ws marketDataClient = Some OPEN \<and>
   openLong 1700000000000 \<lparr>op_marketId = 16, op_accountId = 100, op_size = 1000, op_price = None,
       op_leverage = 1000, op_lastBlock = 50000, op_flags = None\<rparr> marketDataClient
     = (1700000000000, marketDataClient\<lparr>sent := sent marketDataClient @
          [JObj [(''mt'', JNum 22), (''rq'', JNum 1700000000000), (''mkt'', JNum 16),
                 (''acc'', JNum 100), (''t'', JNum 1), (''p'', JNum 0),
                 (''s'', JNum 1000), (''fl'', JNum 4), (''lv'', JNum 1000),
                 (''lb'', JNum 50000)]]\<rparr>) \<and>
   openLong 1700000000000 \<lparr>op_marketId = 16, op_accountId = 100, op_size = 1000,
       op_price = Some 50000, op_leverage = 1000, op_lastBlock = 50000, op_flags = None\<rparr>
       marketDataClient
     = (1700000000000, marketDataClient\<lparr>sent := sent marketDataClient @
          [JObj [(''mt'', JNum 22), (''rq'', JNum 1700000000000), (''mkt'', JNum 16),
                 (''acc'', JNum 100), (''t'', JNum 1), (''p'', JNum 50000),
                 (''s'', JNum 1000), (''fl'', JNum 0), (''lv'', JNum 1000),
                 (''lb'', JNum 50000)]]\<rparr>)"
  using openLong_frames [OF marketDataClient_open, of 1700000000000] marketDataClient_open
  by simp

section \<open>Reconnecting\<close>










lemma resubscribeAll_sent:
  "ws st = Some OPEN \<Longrightarrow>
     sent (resubscribeAll st) = sent st @
       (if subscriptions st = [] then [] else [subscriptionRequest (map fst (subscriptions st))])"
  by (simp add: resubscribeAll_def Let_def send_def)





lemma tradingClient_eval:
  "tradingClient = \<lparr>ws = Some OPEN, wsUrl = ''wss://testnet.perpl.xyz'', chainId = 10143,
      authNonce = Some ''nonce-1'', subscriptions = [], reconnectAttempts = 0,
      pingInterval = True, currentUrl = Some ''wss://testnet.perpl.xyz/ws/v1/trading'',
      cookies = Some ''jwt=tok'',
      sent = [authSignIn 10143 ''nonce-1'' ''ses-1''],
      opened = [(''wss://testnet.perpl.xyz/ws/v1/trading'', Some ''jwt=tok'')],
      emitted = [EvConnect], waited = []\<rparr>"
  by (simp add: tradingClient_def connectTrading_def connect_def on_open_def emit_def
      connect_begin_def Let_def newWsClient_def truthy_string_def send_def authSignIn_def)





section \<open>Cookie and nonce on the trading socket\<close>

text \<open>
  Claim C2 asks that the session cookie and the session nonce are always presented
  together, also on the trading connection that an automatic reconnect re-establishes.
  The first connection does present both. The reconnect calls \<open>connectTrading\<close> with the
  nonce alone: the socket is opened without a \<^verbatim>\<open>Cookie\<close> header although the client
  still holds the cookie string in its field \<open>cookies\<close>, and the sign-in frame with the
  nonce is sent on it.
\<close>

theorem reconnect_presents_nonce_without_cookie:
  "opened (on_close 1006 [Opens ''ses-2'' True] tradingClient)
     = [(''wss://testnet.perpl.xyz/ws/v1/trading'', Some ''jwt=tok''),
        (''wss://testnet.perpl.xyz/ws/v1/trading'', None)] \<and>
   sent (on_close 1006 [Opens ''ses-2'' True] tradingClient)
     = [authSignIn 10143 ''nonce-1'' ''ses-1'', authSignIn 10143 ''nonce-1'' ''ses-2''] \<and>
   cookies (on_close 1006 [Opens ''ses-2'' True] tradingClient) = Some ''jwt=tok''"
  by (simp add: tradingClient_eval on_close_def send_def handleDisconnect.simps
      Let_def emit_def maxReconnectAttempts_def reconnectDelays_def truthy_string_def
      connectTrading_def connect_def on_open_def connect_begin_def resubscribeAll_def
      authSignIn_def)

section \<open>A 404 response on the REST client\<close>

lemma requestWithResponse_404:
  "rs_status response = 404 \<Longrightarrow>
     fst (requestWithResponse method path body response c) = Inl (ApiError ''Not found'' 404 None) \<and>
     authState (snd (requestWithResponse method path body response c)) = authState c"
  by (simp add: requestWithResponse_def Let_def)

lemma api_get_404:
  "rs_status response = 404 \<Longrightarrow>
     fst (api_get path response c) = Inl (ApiError ''Not found'' 404 None) \<and>
     authState (snd (api_get path response c)) = authState c"
  using requestWithResponse_404 [of response "''GET''" path None c]
  by (auto simp add: api_get_def api_request_def split: prod.splits sum.splits)

lemma historyCall_404:
  "authState c \<noteq> None \<Longrightarrow> rs_status response = 404 \<Longrightarrow>
     fst (historyCall name page count response c) = Inl (ApiError ''Not found'' 404 None) \<and>
     authState (snd (historyCall name page count response c)) = authState c"
  using api_get_404 [of response _ c]
  by (simp add: historyCall_def requireAuth_def)

lemma string_of_nat_50: "string_of_nat 50 = ''50''"
  by (simp add: string_of_nat.simps [of 50] string_of_nat.simps [of 5])

lemma signedInClient_eval:
  "signedInClient =
     \<lparr>config = testnetConfig,
      authState = Some \<lparr>as_nonce = ''auth-nonce'', as_cookies = ''jwt=tok'', as_authenticated = True\<rparr>,
      requests =
        [\<lparr>rq_method = ''POST'', rq_url = ''https://testnet.perpl.xyz/api/v1/auth/payload'',
          rq_headers = [(''Content-Type'', ''application/json'')],
          rq_body = Some (JObj [(''chain_id'', JNum 10143), (''address'', JStr ''0x1234'')])\<rparr>,
         \<lparr>rq_method = ''POST'', rq_url = ''https://testnet.perpl.xyz/api/v1/auth/connect'',
          rq_headers = [(''Content-Type'', ''application/json'')],
          rq_body = Some (JObj [(''chain_id'', JNum 10143), (''address'', JStr ''0x1234''),
                                (''message'', JStr ''Sign''), (''nonce'', JStr ''n''),
                                (''issued_at'', JNum 1), (''mac'', JStr ''m''),
                                (''signature'', JStr ''0xsig'')])\<rparr>]\<rparr>"
  by (simp add: signedInClient_def authenticate_def api_post_def api_request_def requestWithResponse_def
      Let_def newApiClient_def testnetConfig_def requestHeaders_def)

text \<open>
  Claim C6, as the code has it. On a signed-in client, a 404 response to any of the four
  history calls surfaces as the \<^verbatim>\<open>ApiError\<close> \<open>Not found\<close> with status 404, exactly as
  it does on an endpoint that is no history call (\<open>getContext\<close>); the client does not
  turn it into an empty page, and the session is kept. Only \<open>getRefCode\<close> catches the 404
  itself and returns \<^verbatim>\<open>null\<close>.
\<close>

theorem history_404_is_api_error:
  assumes "authState c \<noteq> None" and "rs_status response = 404" and "rs_status other = 404"
  shows "fst (getFills page count response c) = Inl (ApiError ''Not found'' 404 None) \<and>
         fst (getOrderHistory page count response c) = Inl (ApiError ''Not found'' 404 None) \<and>
         fst (getPositionHistory page count response c) = Inl (ApiError ''Not found'' 404 None) \<and>
         fst (getAccountHistory page count response c) = Inl (ApiError ''Not found'' 404 None) \<and>
         authState (snd (getFills page count response c)) = authState c \<and>
         fst (getContext other c) = Inl (ApiError ''Not found'' 404 None) \<and>
         fst (getRefCode other c) = Inr None"
proof -
  have "fst (getRefCode other c) = Inr None"
    using assms(1) api_get_404 [OF assms(3), of "''/v1/profile/ref-code''" c]
    by (auto simp add: getRefCode_def requireAuth_def split: prod.splits sum.splits ApiFailure.splits)
  then show ?thesis
    using historyCall_404 [OF assms(1,2)] api_get_404 [OF assms(3), of "''/v1/pub/context''" c]
    by (simp add: getFills_def getOrderHistory_def getPositionHistory_def getAccountHistory_def
        getContext_def)
qed

theorem history_404_is_api_error_witness:
  "authState signedInClient \<noteq> None \<and> rs_status notFoundResponse = 404 \<and>
   fst (getFills None 50 notFoundResponse signedInClient) = Inl (ApiError ''Not found'' 404 None) \<and>
   fst (getOrderHistory None 50 notFoundResponse signedInClient)
     = Inl (ApiError ''Not found'' 404 None) \<and>
   fst (getPositionHistory None 50 notFoundResponse signedInClient)
     = Inl (ApiError ''Not found'' 404 None) \<and>
   fst (getAccountHistory None 50 notFoundResponse signedInClient)
     = Inl (ApiError ''Not found'' 404 None) \<and>
   fst (getContext notFoundResponse signedInClient) = Inl (ApiError ''Not found'' 404 None) \<and>
   fst (getRefCode notFoundResponse signedInClient) = Inr None"
proof -
  have h1: "authState signedInClient \<noteq> None" by (simp add: signedInClient_eval)
  have h2: "rs_status notFoundResponse = 404" by (simp add: notFoundResponse_def)
  from history_404_is_api_error [OF h1 h2 h2, of None 50] h1 h2
  show ?thesis by simp
qed

text \<open>
  The claim as the specification states it fails: the 404 of a history call is not
  normalised to an empty page, it is thrown. The request carries both the nonce and the
  cookie of the session.
\<close>

theorem getFills_404_counterexample:
  "fst (getFills None 50 notFoundResponse signedInClient) = Inl (ApiError ''Not found'' 404 None) \<and>
   fst (getFills None 50 notFoundResponse signedInClient) \<noteq> Inr \<lparr>hp_d = [], hp_np = []\<rparr> \<and>
   requests (snd (getFills None 50 notFoundResponse signedInClient))
     = requests signedInClient @
       [\<lparr>rq_method = ''GET'', rq_url = ''https://testnet.perpl.xyz/api/v1/trading/fills?count=50'',
         rq_headers = [(''Content-Type'', ''application/json''), (''X-Auth-Nonce'', ''auth-nonce''),
                       (''Cookie'', ''jwt=tok'')],
         rq_body = None\<rparr>]"
  by (simp add: getFills_def historyCall_def requireAuth_def api_get_def api_request_def
      requestWithResponse_def Let_def signedInClient_eval notFoundResponse_def
      requestHeaders_def historyQuery_def string_of_int_def string_of_nat_50 testnetConfig_def)

text \<open>
  On the REST side the nonce header is attached whenever the client is signed in, and the
  cookie header goes with it whenever the captured cookie string is not empty; a cookie
  header never goes without the nonce header.
\<close>

lemma rest_cookie_goes_with_nonce:
  "(''Cookie'', v) \<in> set (requestHeaders c) \<Longrightarrow>
     \<exists>a. authState c = Some a \<and> v = as_cookies a \<and>
         (''X-Auth-Nonce'', as_nonce a) \<in> set (requestHeaders c)"
  by (cases "authState c") (auto simp add: requestHeaders_def split: if_splits)

lemma rest_signed_in_headers:
  "authState c = Some a \<Longrightarrow> as_cookies a \<noteq> [] \<Longrightarrow>
     requestHeaders c = [(''Content-Type'', ''application/json''),
                         (''X-Auth-Nonce'', as_nonce a), (''Cookie'', as_cookies a)]"
  by (simp add: requestHeaders_def)


end
